theory Spec2Isabelle
  imports Complex_Main "HOL-Library.Word"
begin

section \<open>ci-guardian: a shallow embedding of the failure-remediation pipeline\<close>

text \<open>
  Python \<open>str\<close> and \<open>bytes\<close> values are modelled as \<open>string\<close> (lists of 8-bit
  characters read as code points 0..255), dictionaries as association lists or maps,
  exceptions as the left summand of a result type. Calls into the standard library and
  into external services (\<open>re\<close> apart, which is modelled below for the patterns the
  source uses) are parameters of the functions that make them.
\<close>

subsection \<open>Exceptions\<close>

datatype exn =
    TypeError
  | ValueError string
  | IndexError
  | AttributeError
  | RecursionError
  | APIError string
  | OtherError string

subsection \<open>webhook/handler.py: the deduplication cache\<close>

text \<open>
  \<open>_processed_runs\<close> maps a run id to the \<open>time.time()\<close> reading stored for it.
  Timestamps are reals: the only arithmetic is the subtraction of two readings of the
  same clock. The module-level dictionary is passed in and returned.
\<close>

definition CACHE_TTL_SECONDS :: real where
  "CACHE_TTL_SECONDS = 3600"

text \<open>
  \<open>_cleanup_cache\<close>: collects the keys whose age is strictly greater than the TTL and
  deletes them. \<open>current_time\<close> is the function's own clock reading.
\<close>

definition cleanup_cache :: "real \<Rightarrow> ('k \<rightharpoonup> real) \<Rightarrow> ('k \<rightharpoonup> real)" where
  "cleanup_cache current_time processed_runs =
     (\<lambda>run_id. case processed_runs run_id of
        None \<Rightarrow> None
      | Some timestamp \<Rightarrow>
          if current_time - timestamp > CACHE_TTL_SECONDS then None else Some timestamp)"

text \<open>
  The deduplication step of \<open>github_webhook\<close> (the lines after the allow-list check):
  \<open>_cleanup_cache()\<close>, the membership test, and the store of a second clock reading
  \<open>now\<close>. The boolean is True when the handler answers "duplicate".
\<close>

definition seen_or_record ::
  "'k \<Rightarrow> real \<Rightarrow> real \<Rightarrow> ('k \<rightharpoonup> real) \<Rightarrow> bool \<times> ('k \<rightharpoonup> real)" where
  "seen_or_record run_id current_time now processed_runs =
     (let runs = cleanup_cache current_time processed_runs in
      if runs run_id \<noteq> None then (True, runs)
      else (False, runs(run_id \<mapsto> now)))"

subsection \<open>webhook/validator.py: signature validation\<close>

text \<open>
  \<open>hmac.new(key, msg, hashlib.sha256)\<close> is the standard library's: its raw 32-byte
  digest is the parameter \<open>hmac_sha256\<close> (key first, as in the source). \<open>hexdigest\<close>
  writes each byte as two lower-case hexadecimal digits.
\<close>

definition hex_digit :: "nat \<Rightarrow> char" where
  "hex_digit n = ''0123456789abcdef'' ! (n mod 16)"

definition hexdigest :: "8 word list \<Rightarrow> string" where
  "hexdigest bs = concat (map (\<lambda>b. [hex_digit (unat b div 16), hex_digit (unat b mod 16)]) bs)"

definition startswith :: "string \<Rightarrow> string \<Rightarrow> bool" where
  "startswith s p = (take (length p) s = p)"

definition is_ascii :: "string \<Rightarrow> bool" where
  "is_ascii s = list_all (\<lambda>c. (of_char c :: nat) < 128) s"

text \<open>
  \<open>hmac.compare_digest\<close> on two \<open>str\<close> arguments raises TypeError unless both are
  ASCII-only, and otherwise compares them.
\<close>

definition compare_digest :: "string \<Rightarrow> string \<Rightarrow> exn + bool" where
  "compare_digest a b = (if is_ascii a \<and> is_ascii b then Inr (a = b) else Inl TypeError)"

definition validate_github_signature ::
  "(string \<Rightarrow> string \<Rightarrow> 8 word list) \<Rightarrow> string \<Rightarrow> string option \<Rightarrow> string \<Rightarrow> exn + bool" where
  "validate_github_signature hmac_sha256 payload signature secret =
     (case signature of
        None \<Rightarrow> Inr False
      | Some sig \<Rightarrow>
          if sig = [] then Inr False
          else if \<not> startswith sig ''sha256='' then Inr False
          else
            let expected_signature = ''sha256='' @ hexdigest (hmac_sha256 secret payload)
            in compare_digest expected_signature sig)"

subsection \<open>analysis/parser.py: the regular expressions\<close>

text \<open>
  The source compiles twelve patterns with \<open>re.compile\<close>. They use literals, character
  classes, greedy and lazy repetition of a single class, alternation, optional groups,
  capture groups and the anchors \<open>^\<close> and \<open>$\<close> under \<open>re.MULTILINE\<close>. The matcher below is
  the backtracking matcher of \<open>re\<close> for exactly these constructs: alternatives are tried
  in priority order (greedy: longest first; lazy: shortest first) and the first complete
  match wins.
\<close>

datatype regex =
    Bol
  | Eol
  | Lit string
  | LitI string
  | One "char \<Rightarrow> bool"
  | Star "char \<Rightarrow> bool"
  | Plus "char \<Rightarrow> bool"
  | LazyStar "char \<Rightarrow> bool"
  | Seq regex regex
  | Alt regex regex
  | Opt regex
  | Grp string regex

definition newline :: char where
  "newline = CHR 0x0A"

text \<open>The classes, on code points 0..255. \<open>\s\<close>, \<open>\d\<close> and \<open>\w\<close> are the Unicode classes
  of a \<open>str\<close> pattern restricted to that range; \<open>.\<close> is anything but a newline.\<close>

definition cls_space :: "char \<Rightarrow> bool" where
  "cls_space c = (let n = (of_char c :: nat) in
     (9 \<le> n \<and> n \<le> 13) \<or> (28 \<le> n \<and> n \<le> 32) \<or> n = 133 \<or> n = 160)"

definition cls_digit :: "char \<Rightarrow> bool" where
  "cls_digit c = (let n = (of_char c :: nat) in 48 \<le> n \<and> n \<le> 57)"

definition cls_upper :: "char \<Rightarrow> bool" where
  "cls_upper c = (let n = (of_char c :: nat) in 65 \<le> n \<and> n \<le> 90)"

definition cls_word :: "char \<Rightarrow> bool" where
  "cls_word c = (let n = (of_char c :: nat) in
     (48 \<le> n \<and> n \<le> 57) \<or> (65 \<le> n \<and> n \<le> 90) \<or> n = 95 \<or> (97 \<le> n \<and> n \<le> 122) \<or>
     n = 170 \<or> n = 178 \<or> n = 179 \<or> n = 181 \<or> n = 185 \<or> n = 186 \<or>
     (188 \<le> n \<and> n \<le> 190) \<or> (192 \<le> n \<and> n \<le> 214) \<or> (216 \<le> n \<and> n \<le> 246) \<or>
     (248 \<le> n \<and> n \<le> 255))"

definition cls_dot :: "char \<Rightarrow> bool" where
  "cls_dot c = (c \<noteq> newline)"

definition cls_not_space_or :: "char \<Rightarrow> char \<Rightarrow> bool" where
  "cls_not_space_or x c = (\<not> cls_space c \<and> c \<noteq> x)"

definition cls_not_space :: "char \<Rightarrow> bool" where
  "cls_not_space c = (\<not> cls_space c)"

definition cls_in :: "string \<Rightarrow> char \<Rightarrow> bool" where
  "cls_in xs c = (c \<in> set xs)"

definition ascii_lower :: "char \<Rightarrow> char" where
  "ascii_lower c = (let n = (of_char c :: nat) in
     if 65 \<le> n \<and> n \<le> 90 then char_of (n + 32) else c)"

text \<open>A matcher state: whether the position is at the start of a line, the text that
  remains, and the groups captured so far.\<close>

type_synonym mstate = "bool \<times> string \<times> (string \<times> string) list"

fun lit_m :: "(char \<Rightarrow> char) \<Rightarrow> string \<Rightarrow> bool \<Rightarrow> string \<Rightarrow> (bool \<times> string) option" where
  "lit_m f [] b s = Some (b, s)"
| "lit_m f (x # xs) b [] = None"
| "lit_m f (x # xs) b (c # cs) = (if f x = f c then lit_m f xs (c = newline) cs else None)"

fun star_m :: "(char \<Rightarrow> bool) \<Rightarrow> bool \<Rightarrow> string \<Rightarrow> (string \<times> string) list \<Rightarrow>
    (mstate \<Rightarrow> 'a option) \<Rightarrow> 'a option" where
  "star_m p b [] g k = k (b, [], g)"
| "star_m p b (c # cs) g k =
     (if p c then
        (case star_m p (c = newline) cs g k of
           Some x \<Rightarrow> Some x
         | None \<Rightarrow> k (b, c # cs, g))
      else k (b, c # cs, g))"

fun lazy_m :: "(char \<Rightarrow> bool) \<Rightarrow> bool \<Rightarrow> string \<Rightarrow> (string \<times> string) list \<Rightarrow>
    (mstate \<Rightarrow> 'a option) \<Rightarrow> 'a option" where
  "lazy_m p b [] g k = k (b, [], g)"
| "lazy_m p b (c # cs) g k =
     (case k (b, c # cs, g) of
        Some x \<Rightarrow> Some x
      | None \<Rightarrow> if p c then lazy_m p (c = newline) cs g k else None)"

fun rmatch :: "regex \<Rightarrow> mstate \<Rightarrow> (mstate \<Rightarrow> 'a option) \<Rightarrow> 'a option" where
  "rmatch Bol (b, s, g) k = (if b then k (b, s, g) else None)"
| "rmatch Eol (b, s, g) k =
     (case s of [] \<Rightarrow> k (b, s, g) | c # cs \<Rightarrow> if c = newline then k (b, s, g) else None)"
| "rmatch (Lit xs) (b, s, g) k =
     (case lit_m (\<lambda>c. c) xs b s of None \<Rightarrow> None | Some (b', s') \<Rightarrow> k (b', s', g))"
| "rmatch (LitI xs) (b, s, g) k =
     (case lit_m ascii_lower xs b s of None \<Rightarrow> None | Some (b', s') \<Rightarrow> k (b', s', g))"
| "rmatch (One p) (b, s, g) k =
     (case s of [] \<Rightarrow> None | c # cs \<Rightarrow> if p c then k (c = newline, cs, g) else None)"
| "rmatch (Star p) (b, s, g) k = star_m p b s g k"
| "rmatch (Plus p) (b, s, g) k =
     (case s of [] \<Rightarrow> None | c # cs \<Rightarrow> if p c then star_m p (c = newline) cs g k else None)"
| "rmatch (LazyStar p) (b, s, g) k = lazy_m p b s g k"
| "rmatch (Seq r1 r2) st k = rmatch r1 st (\<lambda>st'. rmatch r2 st' k)"
| "rmatch (Alt r1 r2) st k =
     (case rmatch r1 st k of Some x \<Rightarrow> Some x | None \<Rightarrow> rmatch r2 st k)"
| "rmatch (Opt r) st k =
     (case rmatch r st k of Some x \<Rightarrow> Some x | None \<Rightarrow> k st)"
| "rmatch (Grp n r) (b, s, g) k =
     rmatch r (b, s, g)
       (\<lambda>(b', s', g'). k (b', s', g' @ [(n, take (length s - length s') s)]))"

text \<open>A match object: \<open>match.start()\<close>, \<open>match.end()\<close> and the captured groups.\<close>

record rmatch_obj =
  m_start :: nat
  m_end :: nat
  m_groups :: "(string \<times> string) list"

definition match_at :: "regex \<Rightarrow> bool \<Rightarrow> string \<Rightarrow> nat \<Rightarrow> rmatch_obj option" where
  "match_at r b s pos =
     (case rmatch r (b, s, []) Some of
        None \<Rightarrow> None
      | Some (b', s', g) \<Rightarrow>
          Some \<lparr>m_start = pos, m_end = pos + (length s - length s'), m_groups = g\<rparr>)"

text \<open>
  \<open>pattern.finditer(text)\<close>: the non-overlapping matches, left to right. \<open>skip\<close> counts
  the positions still inside the previous match, where no match is attempted. No pattern
  of the source matches the empty string, so the rule of \<open>re\<close> for empty matches never
  applies.
\<close>

fun scan :: "regex \<Rightarrow> bool \<Rightarrow> string \<Rightarrow> nat \<Rightarrow> nat \<Rightarrow> rmatch_obj list" where
  "scan r b [] pos skip =
     (if skip = 0 then (case match_at r b [] pos of None \<Rightarrow> [] | Some mo \<Rightarrow> [mo]) else [])"
| "scan r b (c # cs) pos skip =
     (if skip = 0 then
        (case match_at r b (c # cs) pos of
           None \<Rightarrow> scan r (c = newline) cs (Suc pos) 0
         | Some mo \<Rightarrow> mo # scan r (c = newline) cs (Suc pos) (m_end mo - pos - 1))
      else scan r (c = newline) cs (Suc pos) (skip - 1))"

definition finditer :: "regex \<Rightarrow> string \<Rightarrow> rmatch_obj list" where
  "finditer pattern text = scan pattern True text 0 0"

definition cat :: "regex list \<Rightarrow> regex" where
  "cat rs = foldr Seq rs (Lit [])"

subsection \<open>analysis/parser.py: the error model and the parser\<close>

record ParsedError =
  error_type :: string
  message :: string
  file_path :: "string option"
  line_number :: "int option"
  column :: "int option"
  "context" :: string

record ParsedErrors =
  errors :: "ParsedError list"
  raw_logs :: string
  overall_type :: string

text \<open>\<open>overall_type\<close> is the field \<open>error_type\<close> of \<open>ParsedErrors\<close> (the name is taken by
  the field of \<open>ParsedError\<close>).\<close>

text \<open>The groups \<open>file\<close>, \<open>line\<close> and \<open>col\<close>, shared by several patterns. The class
  \<open>[-\<dots>]\<close> of the pyright pattern holds the hyphen and the en dash U+2013; the latter
  lies outside the code points 0..255 of the model.\<close>

definition grp_file_py :: regex where
  "grp_file_py = Grp ''file'' (cat [Plus (cls_not_space_or CHR '':''), Lit ''.py''])"

definition grp_line :: regex where
  "grp_line = Grp ''line'' (Plus cls_digit)"

definition grp_col :: regex where
  "grp_col = Grp ''col'' (Plus cls_digit)"

definition grp_msg :: regex where
  "grp_msg = Grp ''msg'' (Plus cls_dot)"

definition js_ext :: regex where
  "js_ext = cat [Lit ''.'', One (cls_in ''jt''), Lit ''s'', Opt (Lit ''x'')]"

definition PATTERNS :: "(string \<times> regex list) list" where
  "PATTERNS =
    [(''pyright'',
        [cat [Bol, grp_file_py, Lit '':'', grp_line, Lit '':'', grp_col, Star cls_space,
              One (cls_in ''-''), Star cls_space, Lit ''error:'', Star cls_space, grp_msg, Eol]]),
     (''mypy'',
        [cat [Bol, grp_file_py, Lit '':'', grp_line, Lit '':'', Star cls_space,
              Lit ''error:'', Star cls_space, grp_msg, Eol]]),
     (''ruff'',
        [cat [Bol, grp_file_py, Lit '':'', grp_line, Lit '':'', grp_col, Lit '':'',
              Star cls_space, Grp ''code'' (cat [One cls_upper, Plus cls_digit]),
              Star cls_space, grp_msg, Eol]]),
     (''eslint'',
        [cat [Bol, Star cls_space,
              Grp ''file'' (cat [Plus (cls_not_space_or CHR '':''), js_ext]),
              Lit '':'', grp_line, Lit '':'', grp_col, Plus cls_space,
              Alt (Lit ''error'') (Lit ''warning''), Plus cls_space, grp_msg, Eol]]),
     (''typescript'',
        [cat [Bol, Grp ''file'' (cat [Plus (cls_not_space_or CHR ''(''), js_ext]),
              Lit ''('', grp_line, Lit '','', grp_col, Lit ''):'', Star cls_space,
              Lit ''error'', Plus cls_space,
              Grp ''code'' (cat [Lit ''TS'', Plus cls_digit]), Lit '':'',
              Star cls_space, grp_msg, Eol]]),
     (''pytest'',
        [cat [Bol, Lit ''FAILED'', Plus cls_space, grp_file_py, Lit ''::'',
              Grp ''test'' (Plus cls_word)],
         cat [Bol, grp_file_py, Lit '':'', grp_line, Lit '':'', Star cls_space,
              Alt (Lit ''AssertionError'') (cat [Lit ''assert'', One cls_space])]]),
     (''jest'',
        [cat [Bol, Lit ''FAIL'', Plus cls_space,
              Grp ''file'' (cat [Plus cls_not_space, Lit ''.'',
                                 Alt (Lit ''test'') (Lit ''spec''), js_ext]),
              Eol]])]"

definition error_indicators :: "regex list" where
  "error_indicators =
    [cat [Bol, LitI ''error['', LazyStar cls_dot, LitI '']:'', Star cls_space,
          Grp ''1'' (Plus cls_dot), Eol],
     cat [Bol, Lit ''Error:'', Star cls_space, Grp ''1'' (Plus cls_dot), Eol],
     cat [Bol, LitI ''fatal:'', Star cls_space, Grp ''1'' (Plus cls_dot), Eol],
     cat [Bol, Opt (Alt (Lit ''npm '') (Lit ''yarn '')), Lit ''ERR!'', Star cls_space,
          Grp ''1'' (Plus cls_dot), Eol]]"

text \<open>\<open>groups.get(name, "")\<close> on the match's \<open>groupdict()\<close>.\<close>

definition group_get :: "(string \<times> string) list \<Rightarrow> string \<Rightarrow> string" where
  "group_get groups name = (case map_of groups name of None \<Rightarrow> [] | Some v \<Rightarrow> v)"

text \<open>
  \<open>int(s)\<close> on a string of decimal digits, as the captures of \<open>\d+\<close> are. The
  interpreter refuses a string of more than 4300 digits (the default of
  \<open>sys.int_info.default_max_str_digits\<close>, leading zeros counted) with a ValueError
  that states the number of digits.
\<close>

definition int_of_digits :: "string \<Rightarrow> int" where
  "int_of_digits s = foldl (\<lambda>n c. 10 * n + (int (of_char c) - 48)) 0 s"

definition INT_MAX_STR_DIGITS :: nat where
  "INT_MAX_STR_DIGITS = 4300"

fun decimal :: "nat \<Rightarrow> nat \<Rightarrow> string" where
  "decimal 0 n = []"
| "decimal (Suc fuel) n =
     (if n < 10 then [char_of (48 + n)]
      else decimal fuel (n div 10) @ [char_of (48 + n mod 10)])"

definition str_of_nat :: "nat \<Rightarrow> string" where
  "str_of_nat n = decimal (Suc n) n"

definition digit_limit_error :: "nat \<Rightarrow> exn" where
  "digit_limit_error n =
     ValueError (''Exceeds the limit (4300 digits) for integer string conversion: value has ''
       @ str_of_nat n @ '' digits; use sys.set_int_max_str_digits() to increase the limit'')"

definition py_int :: "string \<Rightarrow> exn + int" where
  "py_int s =
     (if length s > INT_MAX_STR_DIGITS then Inl (digit_limit_error (length s))
      else Inr (int_of_digits s))"

text \<open>\<open>int(groups[name]) if groups.get(name) else None\<close>.\<close>

definition int_or_none :: "(string \<times> string) list \<Rightarrow> string \<Rightarrow> exn + int option" where
  "int_or_none groups name =
     (if map_of groups name \<noteq> None \<and> map_of groups name \<noteq> Some []
      then (case py_int (group_get groups name) of Inl e \<Rightarrow> Inl e | Inr n \<Rightarrow> Inr (Some n))
      else Inr None)"

text \<open>\<open>str.strip()\<close>.\<close>

definition strip :: "string \<Rightarrow> string" where
  "strip s = rev (dropWhile cls_space (rev (dropWhile cls_space s)))"

text \<open>The body of the innermost loop of \<open>parse_error_logs\<close>: the ParsedError built
  from one match, with its context window. The constructor's arguments are evaluated
  in order, so \<open>int\<close> is applied to the line before the column.\<close>

definition make_error :: "string \<Rightarrow> string \<Rightarrow> rmatch_obj \<Rightarrow> exn + ParsedError" where
  "make_error logs etype mo =
     (let groups = m_groups mo;
          msg = group_get groups ''msg''
      in case int_or_none groups ''line'' of
           Inl e \<Rightarrow> Inl e
         | Inr line \<Rightarrow>
             (case int_or_none groups ''col'' of
                Inl e \<Rightarrow> Inl e
              | Inr col \<Rightarrow>
                  let start = m_start mo - 200;
                      end = min (length logs) (m_end mo + 200)
                  in Inr \<lparr>error_type = etype,
                          message = (if msg \<noteq> [] then msg else group_get groups ''code''),
                          file_path = map_of groups ''file'',
                          line_number = line,
                          column = col,
                          context = take (end - start) (drop start logs)\<rparr>))"

text \<open>The three nested loops of \<open>parse_error_logs\<close>, over the loop state
  \<open>(errors, detected_type)\<close>: every match appends its error and overwrites
  \<open>detected_type\<close>; a ValueError of \<open>int\<close> leaves all three loops.\<close>

fun match_loop ::
  "string \<Rightarrow> string \<Rightarrow> rmatch_obj list \<Rightarrow> ParsedError list \<times> string \<Rightarrow>
     exn + ParsedError list \<times> string" where
  "match_loop logs etype [] st = Inr st"
| "match_loop logs etype (mo # matches) st =
     (case make_error logs etype mo of
        Inl e \<Rightarrow> Inl e
      | Inr err \<Rightarrow> match_loop logs etype matches (fst st @ [err], etype))"

fun pattern_loop ::
  "string \<Rightarrow> string \<Rightarrow> regex list \<Rightarrow> ParsedError list \<times> string \<Rightarrow>
     exn + ParsedError list \<times> string" where
  "pattern_loop logs etype [] st = Inr st"
| "pattern_loop logs etype (pattern # patterns) st =
     (case match_loop logs etype (finditer pattern logs) st of
        Inl e \<Rightarrow> Inl e
      | Inr st' \<Rightarrow> pattern_loop logs etype patterns st')"

fun tool_loop ::
  "(string \<times> regex list) list \<Rightarrow> string \<Rightarrow> ParsedError list \<times> string \<Rightarrow>
     exn + ParsedError list \<times> string" where
  "tool_loop [] logs st = Inr st"
| "tool_loop (entry # registry) logs st =
     (case pattern_loop logs (fst entry) (snd entry) st of
        Inl e \<Rightarrow> Inl e
      | Inr st' \<Rightarrow> tool_loop registry logs st')"

text \<open>\<open>_extract_generic_errors\<close>: two nested loops appending to \<open>errors\<close>, then the
  slice \<open>errors[:10]\<close>.\<close>

definition generic_error :: "rmatch_obj \<Rightarrow> ParsedError" where
  "generic_error mo =
     \<lparr>error_type = ''generic'', message = strip (group_get (m_groups mo) ''1''),
      file_path = None, line_number = None, column = None, context = []\<rparr>"

definition extract_generic_errors :: "string \<Rightarrow> ParsedError list" where
  "extract_generic_errors logs =
     take 10
       (foldl (\<lambda>errs pattern.
                 foldl (\<lambda>errs mo. errs @ [generic_error mo]) errs (finditer pattern logs))
          [] error_indicators)"

definition parse_with :: "(string \<times> regex list) list \<Rightarrow> string \<Rightarrow> exn + ParsedErrors" where
  "parse_with registry logs =
     (case tool_loop registry logs ([], ''unknown'') of
        Inl e \<Rightarrow> Inl e
      | Inr (errs, detected_type) \<Rightarrow>
          let errs = (if errs = [] then extract_generic_errors logs else errs)
          in Inr \<lparr>errors = errs, raw_logs = logs,
                  overall_type = (if errs \<noteq> [] then detected_type else ''unknown'')\<rparr>)"

definition parse_error_logs :: "string \<Rightarrow> exn + ParsedErrors" where
  "parse_error_logs logs = parse_with PATTERNS logs"

subsection \<open>analysis/claude.py: decoding the reply of the generation service\<close>

text \<open>
  The values \<open>json.loads\<close> returns: None, bool, int, float, str, list and dict (a dict
  keeps one value per key, in insertion order). A float is its real value, an infinity
  or NaN (the decoder accepts \<open>Infinity\<close>, \<open>-Infinity\<close> and \<open>NaN\<close>).
  The fields of \<open>FixResult\<close> and \<open>FileChange\<close> that are filled from the decoded reply
  hold such values: a dataclass does not check its annotations at run time.
\<close>

datatype pyfloat = Finite real | PosInf | NegInf | NaN

datatype json =
    JNull
  | JBool bool
  | JInt int
  | JFloat pyfloat
  | JStr string
  | JArr "json list"
  | JObj "(string \<times> json) list"

record FileChange =
  file_path :: json
  original_content :: string
  new_content :: json

record FixResult =
  can_fix :: json
  description :: json
  changes :: "FileChange list"
  confidence :: json
  analysis :: json

text \<open>Python's truth value of a decoded value (\<open>if x\<close>, \<open>not x\<close>).\<close>

fun truthy :: "json \<Rightarrow> bool" where
  "truthy JNull = False"
| "truthy (JBool b) = b"
| "truthy (JInt n) = (n \<noteq> 0)"
| "truthy (JFloat x) = (x \<noteq> Finite 0)"
| "truthy (JStr s) = (s \<noteq> [])"
| "truthy (JArr xs) = (xs \<noteq> [])"
| "truthy (JObj kvs) = (kvs \<noteq> [])"

text \<open>\<open>x.get(key, default)\<close>: only a dict has the method.\<close>

fun py_get :: "json \<Rightarrow> string \<Rightarrow> json \<Rightarrow> exn + json" where
  "py_get (JObj kvs) key dflt =
     Inr (case map_of kvs key of None \<Rightarrow> dflt | Some v \<Rightarrow> v)"
| "py_get v key dflt = Inl AttributeError"

text \<open>\<open>for x in v\<close>: a list yields its elements, a str its characters, a dict its keys;
  the other values are not iterable.\<close>

fun py_iter :: "json \<Rightarrow> exn + json list" where
  "py_iter (JArr xs) = Inr xs"
| "py_iter (JStr s) = Inr (map (\<lambda>c. JStr [c]) s)"
| "py_iter (JObj kvs) = Inr (map (\<lambda>kv. JStr (fst kv)) kvs)"
| "py_iter v = Inl TypeError"

text \<open>\<open>source_files.get(file_path, "")\<close> on a \<open>dict[str, str]\<close>: a list or a dict is
  unhashable, any other value that is not a str equals no key.\<close>

fun source_get :: "(string \<rightharpoonup> string) \<Rightarrow> json \<Rightarrow> exn + string" where
  "source_get source_files (JStr path) =
     Inr (case source_files path of None \<Rightarrow> [] | Some content \<Rightarrow> content)"
| "source_get source_files (JArr xs) = Inl TypeError"
| "source_get source_files (JObj kvs) = Inl TypeError"
| "source_get source_files v = Inr []"

text \<open>\<open>str.find(sub, start)\<close> with -1 as None, \<open>sub in s\<close>, and \<open>str.rindex\<close> of one
  character.\<close>

fun find_at :: "string \<Rightarrow> string \<Rightarrow> nat \<Rightarrow> nat option" where
  "find_at sub [] pos = (if sub = [] then Some pos else None)"
| "find_at sub (c # cs) pos =
     (if startswith (c # cs) sub then Some pos else find_at sub cs (Suc pos))"

definition find :: "string \<Rightarrow> string \<Rightarrow> nat \<Rightarrow> nat option" where
  "find s sub start = (if start \<le> length s then find_at sub (drop start s) start else None)"

definition contains :: "string \<Rightarrow> string \<Rightarrow> bool" where
  "contains s sub = (find s sub 0 \<noteq> None)"

definition rindex :: "string \<Rightarrow> char \<Rightarrow> nat option" where
  "rindex s c =
     (case find_at [c] (rev s) 0 of None \<Rightarrow> None | Some i \<Rightarrow> Some (length s - 1 - i))"

definition slice :: "string \<Rightarrow> nat \<Rightarrow> nat \<Rightarrow> string" where
  "slice s start end = take (end - start) (drop start s)"

text \<open>
  The first part of \<open>_parse_claude_response\<close>: the value of \<open>json_match\<close> before the
  test \<open>if not json_match\<close>. The branches are those of the source's
  \<open>if\<close>/\<open>elif\<close>/\<open>else\<close>.
\<close>

definition extract_json_match :: "string \<Rightarrow> string option" where
  "extract_json_match response_text =
     (if contains response_text ''```json'' then
        (case find response_text ''```json'' 0 of
           None \<Rightarrow> None
         | Some i \<Rightarrow>
             let start = i + 7 in
             (case find response_text ''```'' start of
                None \<Rightarrow> None
              | Some end \<Rightarrow>
                  if end > start then Some (strip (slice response_text start end)) else None))
      else if contains response_text ''```'' then
        (case find response_text ''```'' 0 of
           None \<Rightarrow> None
         | Some i \<Rightarrow>
             let start = i + 3 in
             (case find response_text ''```'' start of
                None \<Rightarrow> None
              | Some end \<Rightarrow>
                  if end > start then Some (strip (slice response_text start end)) else None))
      else
        (case find response_text ''{'' 0 of
           None \<Rightarrow> None
         | Some start \<Rightarrow>
             (case rindex response_text CHR ''}'' of
                None \<Rightarrow> None
              | Some j \<Rightarrow> Some (slice response_text start (j + 1)))))"

text \<open>The loop that builds the FileChange objects, over the accumulator \<open>changes\<close>.\<close>

fun build_changes ::
  "(string \<rightharpoonup> string) \<Rightarrow> json list \<Rightarrow> FileChange list \<Rightarrow> exn + FileChange list" where
  "build_changes source_files [] acc = Inr acc"
| "build_changes source_files (change_data # rest) acc =
     (case py_get change_data ''file_path'' (JStr []) of
        Inl e \<Rightarrow> Inl e
      | Inr fp \<Rightarrow>
          (case py_get change_data ''new_content'' (JStr []) of
             Inl e \<Rightarrow> Inl e
           | Inr nc \<Rightarrow>
               if truthy fp \<and> truthy nc then
                 (case source_get source_files fp of
                    Inl e \<Rightarrow> Inl e
                  | Inr original \<Rightarrow>
                      build_changes source_files rest
                        (acc @ [\<lparr>file_path = fp, original_content = original,
                                 new_content = nc\<rparr>]))
               else build_changes source_files rest acc))"

text \<open>The second part of \<open>_parse_claude_response\<close>, from the decoded \<open>data\<close> on.\<close>

definition fix_result_of_data :: "json \<Rightarrow> (string \<rightharpoonup> string) \<Rightarrow> exn + FixResult" where
  "fix_result_of_data data source_files =
     (case py_get data ''changes'' (JArr []) of
        Inl e \<Rightarrow> Inl e
      | Inr cs \<Rightarrow>
          (case py_iter cs of
             Inl e \<Rightarrow> Inl e
           | Inr items \<Rightarrow>
               (case build_changes source_files items [] of
                  Inl e \<Rightarrow> Inl e
                | Inr chs \<Rightarrow>
                    (case (py_get data ''can_fix'' (JBool False),
                           py_get data ''description'' (JStr []),
                           py_get data ''confidence'' (JFloat (Finite 0)),
                           py_get data ''analysis'' (JStr [])) of
                       (Inr cf, Inr d, Inr c, Inr a) \<Rightarrow>
                         Inr \<lparr>can_fix = cf, description = d, changes = chs,
                              confidence = c, analysis = a\<rparr>
                     | _ \<Rightarrow> Inl AttributeError))))"

definition failed_result :: "string \<Rightarrow> FixResult" where
  "failed_result note =
     \<lparr>can_fix = JBool False, description = JStr [], changes = [],
      confidence = JFloat (Finite 0), analysis = JStr note\<rparr>"

text \<open>
  \<open>_parse_claude_response\<close>. \<open>json.loads\<close> is the standard library's decoder, a
  parameter: it returns the decoded value, or raises a JSONDecodeError with a message,
  or raises another exception (a RecursionError on deeply nested text, a ValueError on
  an integer literal of more than 4300 digits). The source catches the JSONDecodeError
  only.
\<close>

datatype loads_outcome = Loaded json | JSONDecodeError string | LoadsRaises exn

definition parse_claude_response ::
  "(string \<Rightarrow> loads_outcome) \<Rightarrow> string \<Rightarrow> (string \<rightharpoonup> string) \<Rightarrow> exn + FixResult" where
  "parse_claude_response json_loads response_text source_files =
     (case extract_json_match response_text of
        None \<Rightarrow> Inr (failed_result ''Failed to parse Claude response'')
      | Some json_match \<Rightarrow>
          if json_match = [] then Inr (failed_result ''Failed to parse Claude response'')
          else
            (case json_loads json_match of
               JSONDecodeError e \<Rightarrow> Inr (failed_result (''JSON parse error: '' @ e))
             | LoadsRaises x \<Rightarrow> Inl x
             | Loaded data \<Rightarrow> fix_result_of_data data source_files))"

text \<open>
  \<open>analyze_failure\<close>, from the call of the generation service on. What
  \<open>client.messages.create\<close> did is the parameter \<open>outcome\<close>: it raised, or returned a
  message with a list of content blocks, each with or without a \<open>text\<close> attribute.
  \<open>source_files\<close> is what \<open>get_relevant_files\<close> returned. The prompt is read by the
  service only and is not modelled. The \<open>except\<close> clause catches
  \<open>anthropic.APIError\<close> and nothing else.
\<close>

datatype content_block = TextBlock string | OtherBlock

datatype service_outcome = Raises exn | Returns "content_block list"

definition catch_api_error :: "exn + FixResult \<Rightarrow> exn + FixResult" where
  "catch_api_error r =
     (case r of
        Inl (APIError e) \<Rightarrow> Inr (failed_result (''API error: '' @ e))
      | _ \<Rightarrow> r)"

definition analyze_failure ::
  "(string \<Rightarrow> loads_outcome) \<Rightarrow> service_outcome \<Rightarrow> (string \<rightharpoonup> string) \<Rightarrow> exn + FixResult" where
  "analyze_failure json_loads outcome source_files =
     catch_api_error
       (case outcome of
          Raises e \<Rightarrow> Inl e
        | Returns content \<Rightarrow>
            (case content of
               [] \<Rightarrow> Inl IndexError
             | content_block # _ \<Rightarrow>
                 (case content_block of
                    OtherBlock \<Rightarrow> Inl (ValueError ''Unexpected response format from Claude API'')
                  | TextBlock response_text \<Rightarrow>
                      parse_claude_response json_loads response_text source_files)))"

text \<open>
  The extraction as the specification words it, for comparison with
  \<open>extract_json_match\<close>: three strategies tried in order, a later one whenever the
  earlier ones yielded nothing.
\<close>

definition spec_fenced :: "string \<Rightarrow> string \<Rightarrow> string option" where
  "spec_fenced tag response_text =
     (case find response_text tag 0 of
        None \<Rightarrow> None
      | Some i \<Rightarrow>
          (case find response_text ''```'' (i + length tag) of
             None \<Rightarrow> None
           | Some end \<Rightarrow>
               if end > i + length tag
               then Some (strip (slice response_text (i + length tag) end)) else None))"

definition spec_braces :: "string \<Rightarrow> string option" where
  "spec_braces response_text =
     (case (find response_text ''{'' 0, rindex response_text CHR ''}'') of
        (Some start, Some j) \<Rightarrow> Some (slice response_text start (j + 1))
      | _ \<Rightarrow> None)"

definition spec_extract_in_order :: "string \<Rightarrow> string option" where
  "spec_extract_in_order response_text =
     (case spec_fenced ''```json'' response_text of
        Some j \<Rightarrow> Some j
      | None \<Rightarrow>
          (case spec_fenced ''```'' response_text of
             Some j \<Rightarrow> Some j
           | None \<Rightarrow> spec_braces response_text))"

text \<open>
  The change filter as the specification words it, for comparison with the loop: the
  proposed entries of a decoded reply, the entries that are kept (non-empty path and
  non-empty new content), and the FileChange made from a kept entry (its original
  content looked up in the resolved source map, empty when the path is absent).
\<close>

fun field :: "json \<Rightarrow> string \<Rightarrow> json" where
  "field (JObj kvs) key = (case map_of kvs key of None \<Rightarrow> JStr [] | Some v \<Rightarrow> v)"
| "field v key = JStr []"

definition proposed :: "json \<Rightarrow> json list" where
  "proposed data =
     (case data of
        JObj kvs \<Rightarrow>
          (case map_of kvs ''changes'' of
             None \<Rightarrow> []
           | Some cs \<Rightarrow> (case py_iter cs of Inl e \<Rightarrow> [] | Inr items \<Rightarrow> items))
      | _ \<Rightarrow> [])"

definition kept :: "json \<Rightarrow> bool" where
  "kept change_data =
     (truthy (field change_data ''file_path'') \<and> truthy (field change_data ''new_content''))"

definition original_of :: "(string \<rightharpoonup> string) \<Rightarrow> json \<Rightarrow> string" where
  "original_of source_files fp =
     (case fp of
        JStr path \<Rightarrow> (case source_files path of None \<Rightarrow> [] | Some content \<Rightarrow> content)
      | _ \<Rightarrow> [])"

definition change_of :: "(string \<rightharpoonup> string) \<Rightarrow> json \<Rightarrow> FileChange" where
  "change_of source_files change_data =
     \<lparr>file_path = field change_data ''file_path'',
      original_content = original_of source_files (field change_data ''file_path''),
      new_content = field change_data ''new_content''\<rparr>"

text \<open>A reply of the requested format: an object whose \<open>changes\<close>, when present, is a
  list of objects whose \<open>file_path\<close>, when present, is a string.\<close>

definition well_formed_change :: "json \<Rightarrow> bool" where
  "well_formed_change change_data =
     (case change_data of
        JObj kvs \<Rightarrow>
          (case map_of kvs ''file_path'' of
             None \<Rightarrow> True
           | Some v \<Rightarrow> (case v of JStr path \<Rightarrow> True | _ \<Rightarrow> False))
      | _ \<Rightarrow> False)"

definition well_formed_reply :: "json \<Rightarrow> bool" where
  "well_formed_reply data =
     (case data of
        JObj kvs \<Rightarrow>
          (case map_of kvs ''changes'' of
             None \<Rightarrow> True
           | Some cs \<Rightarrow> (case cs of JArr items \<Rightarrow> list_all well_formed_change items | _ \<Rightarrow> False))
      | _ \<Rightarrow> False)"

subsection \<open>webhook/handler.py: the pipeline for one work item\<close>

text \<open>
  \<open>process_workflow_failure\<close>. What the external collaborators do on this run is given
  by a record: \<open>notify_failure\<close> for \<open>send_failure_notification\<close>, \<open>fetch_logs\<close> for
  \<open>fetch_workflow_logs\<close>, \<open>clone\<close> for \<open>clone_repository\<close>, \<open>analyse\<close> for
  \<open>analyze_failure\<close>, \<open>applier\<close> for \<open>apply_fix\<close>, \<open>publish\<close> for \<open>create_fix_pr\<close> and
  \<open>notify_pr\<close> for \<open>send_pr_notification\<close>; each raises or returns. The function returns
  the calls it made, in order, and the terminal state; the \<open>finally\<close> clause is the
  event \<open>RemoveWorkingCopy\<close>, and \<open>FAILED\<close> is the \<open>except Exception\<close> clause.
\<close>

datatype event =
    SendFailureNotification
  | FetchWorkflowLogs
  | CloneRepository
  | AnalyzeFailure
  | ApplyFix "FileChange list"
  | CreateFixPr
  | SendPrNotification
  | RemoveWorkingCopy

datatype terminal = NO_ERRORS | NOT_FIXABLE | PUBLISHED | FAILED exn

record collaborators =
  notify_failure :: "exn option"
  fetch_logs :: "exn + string"
  clone :: "exn option"
  analyse :: "ParsedErrors \<Rightarrow> exn + FixResult"
  applier :: "FileChange list \<Rightarrow> exn option"
  publish :: "exn + string"
  notify_pr :: "string \<Rightarrow> exn option"

text \<open>The inner \<open>try\<close> block, entered once the repository is cloned.\<close>

definition after_clone :: "collaborators \<Rightarrow> ParsedErrors \<Rightarrow> event list \<times> terminal" where
  "after_clone c parsed_errors =
     (case analyse c parsed_errors of
        Inl e \<Rightarrow> ([AnalyzeFailure], FAILED e)
      | Inr fix_result \<Rightarrow>
          if \<not> truthy (can_fix fix_result) then ([AnalyzeFailure], NOT_FIXABLE)
          else
            (case applier c (changes fix_result) of
               Some e \<Rightarrow> ([AnalyzeFailure, ApplyFix (changes fix_result)], FAILED e)
             | None \<Rightarrow>
                 (case publish c of
                    Inl e \<Rightarrow>
                      ([AnalyzeFailure, ApplyFix (changes fix_result), CreateFixPr], FAILED e)
                  | Inr pr_url \<Rightarrow>
                      (case notify_pr c pr_url of
                         Some e \<Rightarrow>
                           ([AnalyzeFailure, ApplyFix (changes fix_result), CreateFixPr,
                             SendPrNotification], FAILED e)
                       | None \<Rightarrow>
                           ([AnalyzeFailure, ApplyFix (changes fix_result), CreateFixPr,
                             SendPrNotification], PUBLISHED)))))"

definition process_workflow_failure :: "collaborators \<Rightarrow> event list \<times> terminal" where
  "process_workflow_failure c =
     (case notify_failure c of
        Some e \<Rightarrow> ([SendFailureNotification], FAILED e)
      | None \<Rightarrow>
          (case fetch_logs c of
             Inl e \<Rightarrow> ([SendFailureNotification, FetchWorkflowLogs], FAILED e)
           | Inr logs \<Rightarrow>
               (case parse_error_logs logs of
                  Inl e \<Rightarrow> ([SendFailureNotification, FetchWorkflowLogs], FAILED e)
                | Inr parsed_errors \<Rightarrow>
                    if errors parsed_errors = [] then
                      ([SendFailureNotification, FetchWorkflowLogs], NO_ERRORS)
                    else
                      (case clone c of
                         Some e \<Rightarrow>
                           ([SendFailureNotification, FetchWorkflowLogs, CloneRepository],
                            FAILED e)
                       | None \<Rightarrow>
                           (let (evs, t) = after_clone c parsed_errors
                            in ([SendFailureNotification, FetchWorkflowLogs, CloneRepository]
                                  @ evs @ [RemoveWorkingCopy], t))))))"

text \<open>The calls that act on a fix: the Applier, the publication of the pull request and
  the fix-published notification.\<close>

fun fix_action :: "event \<Rightarrow> bool" where
  "fix_action (ApplyFix chs) = True"
| "fix_action CreateFixPr = True"
| "fix_action SendPrNotification = True"
| "fix_action ev = False"

text \<open>A run whose logs hold one generic error and whose oracle declines.\<close>

definition declined_run :: collaborators where
  "declined_run =
     \<lparr>notify_failure = None, fetch_logs = Inr ''Error: x'', clone = None,
      analyse = (\<lambda>parsed. Inr (failed_result ''not fixable'')),
      applier = (\<lambda>chs. None), publish = Inr ''https://example.invalid/pr/1'',
      notify_pr = (\<lambda>url. None)\<rparr>"

text \<open>Whether some pattern of a registry entry has a match in the text.\<close>

definition tool_matches :: "string \<Rightarrow> string \<times> regex list \<Rightarrow> bool" where
  "tool_matches logs entry = list_ex (\<lambda>pattern. finditer pattern logs \<noteq> []) (snd entry)"

text \<open>
  The fallback pass as the specification words it, for comparison with
  \<open>extract_generic_errors\<close>: the matches of all generic patterns combined, ordered by
  their position in the text, cut to the first ten.
\<close>

definition spec_generic_in_text_order :: "string \<Rightarrow> ParsedError list" where
  "spec_generic_in_text_order logs =
     take 10 (map generic_error
       (sort_key m_start (concat (map (\<lambda>pattern. finditer pattern logs) error_indicators))))"

text \<open>Whether \<open>int\<close> accepts the line and column captures of a match, of all matches
  of a registry entry, and the ParsedError of a match whose captures it accepts.\<close>

definition fits :: "rmatch_obj \<Rightarrow> bool" where
  "fits mo =
     (length (group_get (m_groups mo) ''line'') \<le> INT_MAX_STR_DIGITS \<and>
      length (group_get (m_groups mo) ''col'') \<le> INT_MAX_STR_DIGITS)"

definition tool_fits :: "string \<Rightarrow> string \<times> regex list \<Rightarrow> bool" where
  "tool_fits logs entry = list_all (\<lambda>p. list_all fits (finditer p logs)) (snd entry)"

definition error_value :: "string \<Rightarrow> string \<Rightarrow> rmatch_obj \<Rightarrow> ParsedError" where
  "error_value logs etype mo =
     (case make_error logs etype mo of
        Inr err \<Rightarrow> err
      | Inl e \<Rightarrow> \<lparr>error_type = etype, message = [], file_path = None, line_number = None,
                   column = None, context = []\<rparr>)"

text \<open>The errors one registry entry contributes: its patterns in order, each pattern's
  matches in text order.\<close>

definition tool_errors :: "string \<Rightarrow> string \<times> regex list \<Rightarrow> ParsedError list" where
  "tool_errors logs entry =
     concat (map (\<lambda>p. map (error_value logs (fst entry)) (finditer p logs)) (snd entry))"

text \<open>A log of fifteen generic-indicator lines, for the fallback cap.\<close>

definition fifteen_lines :: string where "fifteen_lines = ''Error: a1\<newline>fatal: b1\<newline>Error: a2\<newline>fatal: b2\<newline>Error: a3\<newline>fatal: b3\<newline>Error: a4\<newline>fatal: b4\<newline>Error: a5\<newline>fatal: b5\<newline>Error: a6\<newline>fatal: b6\<newline>Error: a7\<newline>fatal: b7\<newline>Error: a8''"

text \<open>A decoded reply with one change whose new content is empty and one fully
  populated change.\<close>

definition reply_two_changes :: json where
  "reply_two_changes =
     JObj [(''can_fix'', JBool True),
           (''changes'',
              JArr [JObj [(''file_path'', JStr ''a.py''), (''new_content'', JStr [])],
                    JObj [(''file_path'', JStr ''b.py''), (''new_content'', JStr ''x = 1'')]])]"

section \<open>Properties\<close>

subsection \<open>Deduplication\<close>

lemma cleanup_cache_lookup:
  "cleanup_cache t runs k =
     (case runs k of None \<Rightarrow> None
      | Some ts \<Rightarrow> if t - ts \<le> CACHE_TTL_SECONDS then Some ts else None)"
  by (simp add: cleanup_cache_def split: option.splits)

lemma seen_or_record_fresh:
  assumes "runs k = Some ts" and "t - ts \<le> CACHE_TTL_SECONDS"
  shows "seen_or_record k t now runs = (True, cleanup_cache t runs)"
    and "cleanup_cache t runs k = Some ts"
  using assms by (simp_all add: seen_or_record_def cleanup_cache_lookup)

lemma seen_or_record_stale:
  assumes "\<not> (\<exists>ts. runs k = Some ts \<and> t - ts \<le> CACHE_TTL_SECONDS)"
  shows "seen_or_record k t now runs = (False, (cleanup_cache t runs)(k \<mapsto> now))"
proof -
  have "cleanup_cache t runs k = None"
    using assms by (cases "runs k") (auto simp: cleanup_cache_lookup)
  then show ?thesis by (simp add: seen_or_record_def)
qed

text \<open>
  Claim C6. The check-and-record step first purges every entry whose age exceeds the TTL
  (and no other); it answers True and stores nothing when the key was recorded within
  the last TTL, and otherwise stores the key with the current clock reading and answers
  False. Hence three calls for one key (the first when the key is absent or expired, the
  second within the TTL of the stored reading, the third after the TTL has elapsed)
  answer False, True, False.
\<close>

theorem seen_or_record_contract:
  fixes runs :: "'k \<rightharpoonup> real"
  shows
  "(runs k = Some ts \<and> t - ts \<le> CACHE_TTL_SECONDS \<longrightarrow>
      seen_or_record k t now runs = (True, cleanup_cache t runs) \<and>
      cleanup_cache t runs k = Some ts)
   \<and> (\<not> (\<exists>ts. runs k = Some ts \<and> t - ts \<le> CACHE_TTL_SECONDS) \<longrightarrow>
      seen_or_record k t now runs = (False, (cleanup_cache t runs)(k \<mapsto> now)))
   \<and> (\<forall>k' ts'. cleanup_cache t runs k' = Some ts' \<longleftrightarrow>
          runs k' = Some ts' \<and> t - ts' \<le> CACHE_TTL_SECONDS)
   \<and> (\<not> (\<exists>ts. runs k = Some ts \<and> ta - ts \<le> CACHE_TTL_SECONDS) \<and>
        tb - na \<le> CACHE_TTL_SECONDS \<and> tc - na > CACHE_TTL_SECONDS \<longrightarrow>
        (let (r0, c0) = seen_or_record k ta na runs;
             (r1, c1) = seen_or_record k tb nb c0;
             (r2, c2) = seen_or_record k tc nc c1
         in (r0, r1, r2) = (False, True, False)))"
proof (intro conjI impI allI)
  assume "runs k = Some ts \<and> t - ts \<le> CACHE_TTL_SECONDS"
  then show "seen_or_record k t now runs = (True, cleanup_cache t runs)"
    and "cleanup_cache t runs k = Some ts"
    by (simp_all add: seen_or_record_fresh)
next
  assume "\<not> (\<exists>ts. runs k = Some ts \<and> t - ts \<le> CACHE_TTL_SECONDS)"
  then show "seen_or_record k t now runs = (False, (cleanup_cache t runs)(k \<mapsto> now))"
    by (rule seen_or_record_stale)
next
  fix k' ts'
  show "cleanup_cache t runs k' = Some ts' \<longleftrightarrow>
          runs k' = Some ts' \<and> t - ts' \<le> CACHE_TTL_SECONDS"
    by (cases "runs k'") (auto simp: cleanup_cache_lookup)
next
  assume a: "\<not> (\<exists>ts. runs k = Some ts \<and> ta - ts \<le> CACHE_TTL_SECONDS) \<and>
        tb - na \<le> CACHE_TTL_SECONDS \<and> tc - na > CACHE_TTL_SECONDS"
  define c0 where "c0 = (cleanup_cache ta runs)(k \<mapsto> na)"
  have s0: "seen_or_record k ta na runs = (False, c0)"
    using a by (simp add: seen_or_record_stale c0_def)
  have k0: "c0 k = Some na" by (simp add: c0_def)
  have s1: "seen_or_record k tb nb c0 = (True, cleanup_cache tb c0)"
    and k1: "cleanup_cache tb c0 k = Some na"
    using a k0 by (simp_all add: seen_or_record_fresh)
  have "\<not> (\<exists>ts. cleanup_cache tb c0 k = Some ts \<and> tc - ts \<le> CACHE_TTL_SECONDS)"
    using a k1 by simp
  then have s2: "seen_or_record k tc nc (cleanup_cache tb c0) =
      (False, (cleanup_cache tc (cleanup_cache tb c0))(k \<mapsto> nc))"
    by (rule seen_or_record_stale)
  show "(let (r0, c0) = seen_or_record k ta na runs;
             (r1, c1) = seen_or_record k tb nb c0;
             (r2, c2) = seen_or_record k tc nc c1
         in (r0, r1, r2) = (False, True, False))"
    by (simp add: s0 s1 s2)
qed

theorem seen_or_record_contract_witness:
  "(let (r0, c0) = seen_or_record (42::int) 1000 1000 Map.empty;
        (r1, c1) = seen_or_record 42 1001 1001 c0;
        (r2, c2) = seen_or_record 42 4601 4601 c1
    in (r0, r1, r2) = (False, True, False))
   \<and> seen_or_record (42::int) 1001 1001 [42 \<mapsto> 1000] = (True, cleanup_cache 1001 [42 \<mapsto> 1000])
   \<and> cleanup_cache 1001 [42 \<mapsto> 1000] (42::int) = Some 1000"
proof -
  note scenario = seen_or_record_contract [where runs = "Map.empty" and k = "42::int"
      and ta = 1000 and na = 1000 and tb = 1001 and nb = 1001 and tc = 4601 and nc = 4601,
      THEN conjunct2, THEN conjunct2, THEN conjunct2]
  note fresh = seen_or_record_contract [where runs = "[42 \<mapsto> 1000]" and k = "42::int"
      and ts = 1000 and t = 1001 and now = 1001, THEN conjunct1]
  have "(let (r0, c0) = seen_or_record (42::int) 1000 1000 Map.empty;
        (r1, c1) = seen_or_record 42 1001 1001 c0;
        (r2, c2) = seen_or_record 42 4601 4601 c1
    in (r0, r1, r2) = (False, True, False))"
    using scenario by (simp add: CACHE_TTL_SECONDS_def)
  moreover have "seen_or_record (42::int) 1001 1001 [42 \<mapsto> 1000] =
      (True, cleanup_cache 1001 [42 \<mapsto> 1000])
    \<and> cleanup_cache 1001 [42 \<mapsto> 1000] (42::int) = Some 1000"
    using fresh by (simp add: CACHE_TTL_SECONDS_def)
  ultimately show ?thesis by simp
qed

subsection \<open>Signature validation\<close>

lemma hex_digit_ascii: "(of_char (hex_digit n) :: nat) < 128"
proof -
  have "list_all (\<lambda>c. (of_char c :: nat) < 128) ''0123456789abcdef''" by simp
  then have "\<forall>i < 16. (of_char (''0123456789abcdef'' ! i) :: nat) < 128"
    unfolding list_all_length by simp
  then show ?thesis by (simp add: hex_digit_def)
qed

lemma is_ascii_hexdigest: "is_ascii (hexdigest bs)"
  by (induction bs) (simp_all add: is_ascii_def hexdigest_def hex_digit_ascii)

lemma is_ascii_append: "is_ascii (a @ b) \<longleftrightarrow> is_ascii a \<and> is_ascii b"
  by (simp add: is_ascii_def)

lemma is_ascii_prefix: "is_ascii ''sha256=''"
  by (simp add: is_ascii_def)

lemma validate_true_iff:
  "validate_github_signature h payload signature secret = Inr True \<longleftrightarrow>
     signature = Some (''sha256='' @ hexdigest (h secret payload))"
proof (cases signature)
  case None
  then show ?thesis by (simp add: validate_github_signature_def)
next
  case (Some sig)
  let ?e = "''sha256='' @ hexdigest (h secret payload)"
  have asc: "is_ascii ?e"
    using is_ascii_prefix is_ascii_hexdigest by (simp only: is_ascii_append simp_thms)
  show ?thesis
  proof
    assume "validate_github_signature h payload signature secret = Inr True"
    then have "compare_digest ?e sig = Inr True"
      using Some by (simp add: validate_github_signature_def split: if_splits)
    then have "?e = sig" by (simp add: compare_digest_def split: if_splits)
    then show "signature = Some ?e" using Some by simp
  next
    assume "signature = Some ?e"
    then have sig: "sig = ?e" using Some by simp
    have "startswith sig ''sha256=''" by (simp add: sig startswith_def)
    moreover have "compare_digest ?e sig = Inr True"
      using asc by (simp add: sig compare_digest_def)
    ultimately show "validate_github_signature h payload signature secret = Inr True"
      using Some sig by (simp add: validate_github_signature_def)
  qed
qed

text \<open>
  Claim C10. Validation answers False, without raising, when the signature is absent
  (None or empty) or does not start with \<open>sha256=\<close>, and it answers True exactly when the
  signature is \<open>sha256=\<close> followed by the hexadecimal HMAC-SHA256 digest of the payload
  under the secret.
\<close>

theorem validate_github_signature_spec:
  "validate_github_signature h payload None secret = Inr False
   \<and> validate_github_signature h payload (Some []) secret = Inr False
   \<and> (\<not> startswith sig ''sha256='' \<longrightarrow>
        validate_github_signature h payload (Some sig) secret = Inr False)
   \<and> (validate_github_signature h payload signature secret = Inr True \<longleftrightarrow>
        signature = Some (''sha256='' @ hexdigest (h secret payload)))"
  by (simp add: validate_true_iff) (simp add: validate_github_signature_def)

theorem validate_github_signature_spec_witness:
  "validate_github_signature (\<lambda>key msg. [0xAB, 0x01]) ''{}'' (Some ''sha256=ab01'') ''s'' = Inr True
   \<and> validate_github_signature (\<lambda>key msg. [0xAB, 0x01]) ''{}'' (Some ''sha1=ab01'') ''s'' = Inr False
   \<and> validate_github_signature (\<lambda>key msg. [0xAB, 0x01]) ''{}'' None ''s'' = Inr False"
  using validate_github_signature_spec
    [of "\<lambda>key msg. [0xAB, 0x01]" "''{}''" "''s''" "''sha1=ab01''" "Some ''sha256=ab01''"]
  by (simp add: startswith_def hexdigest_def hex_digit_def)

subsection \<open>The parser\<close>

lemma int_or_none_cases:
  "int_or_none g n =
     (if length (group_get g n) > INT_MAX_STR_DIGITS
      then Inl (digit_limit_error (length (group_get g n)))
      else Inr (if group_get g n \<noteq> [] then Some (int_of_digits (group_get g n)) else None))"
  by (cases "map_of g n")
     (auto simp: int_or_none_def py_int_def group_get_def INT_MAX_STR_DIGITS_def)

lemma make_error_fits:
  "fits mo \<Longrightarrow> make_error logs t mo = Inr (error_value logs t mo)"
  by (simp add: error_value_def make_error_def fits_def int_or_none_cases Let_def)

lemma make_error_not_fits:
  "\<not> fits mo \<Longrightarrow> \<exists>n > INT_MAX_STR_DIGITS. make_error logs t mo = Inl (digit_limit_error n)"
  by (auto simp: make_error_def fits_def int_or_none_cases Let_def not_le)

lemma make_error_digit_limit:
  "make_error logs t \<lparr>m_start = 0, m_end = 0, m_groups = [(''line'', replicate 4301 CHR ''1'')]\<rparr> =
     Inl (digit_limit_error 4301)"
  by (simp add: make_error_def int_or_none_cases group_get_def INT_MAX_STR_DIGITS_def)

lemma match_loop_fits:
  "list_all fits ms \<Longrightarrow>
     match_loop logs t ms st =
       Inr (fst st @ map (error_value logs t) ms, if ms = [] then snd st else t)"
  by (induction ms arbitrary: st) (simp_all add: make_error_fits)

lemma match_loop_not_fits:
  "\<not> list_all fits ms \<Longrightarrow>
     \<exists>n > INT_MAX_STR_DIGITS. match_loop logs t ms st = Inl (digit_limit_error n)"
proof (induction ms arbitrary: st)
  case Nil
  then show ?case by simp
next
  case (Cons mo ms)
  show ?case
  proof (cases "fits mo")
    case True
    with Cons.prems have "\<not> list_all fits ms" by simp
    from Cons.IH [OF this] True show ?thesis by (simp add: make_error_fits)
  next
    case False
    from make_error_not_fits [OF this, of logs t] show ?thesis by auto
  qed
qed

lemma pattern_loop_fits:
  "list_all (\<lambda>p. list_all fits (finditer p logs)) ps \<Longrightarrow>
     pattern_loop logs t ps st =
       Inr (fst st @ concat (map (\<lambda>p. map (error_value logs t) (finditer p logs)) ps),
            if list_ex (\<lambda>p. finditer p logs \<noteq> []) ps then t else snd st)"
  by (induction ps arbitrary: st) (simp_all add: match_loop_fits)

lemma pattern_loop_not_fits:
  "\<not> list_all (\<lambda>p. list_all fits (finditer p logs)) ps \<Longrightarrow>
     \<exists>n > INT_MAX_STR_DIGITS. pattern_loop logs t ps st = Inl (digit_limit_error n)"
proof (induction ps arbitrary: st)
  case Nil
  then show ?case by simp
next
  case (Cons p ps)
  show ?case
  proof (cases "list_all fits (finditer p logs)")
    case True
    with Cons.prems have "\<not> list_all (\<lambda>p. list_all fits (finditer p logs)) ps" by simp
    from Cons.IH [OF this] True show ?thesis by (simp add: match_loop_fits)
  next
    case False
    from match_loop_not_fits [OF this, of logs t st] show ?thesis by auto
  qed
qed

lemma tool_errors_Nil: "tool_errors logs e = [] \<longleftrightarrow> \<not> tool_matches logs e"
  by (auto simp: tool_errors_def tool_matches_def list_ex_iff)

lemma tool_loop_fits:
  "list_all (tool_fits logs) reg \<Longrightarrow>
     tool_loop reg logs st =
       Inr (fst st @ concat (map (tool_errors logs) reg),
            if filter (tool_matches logs) reg = [] then snd st
            else fst (last (filter (tool_matches logs) reg)))"
proof (induction reg arbitrary: st)
  case Nil
  then show ?case by simp
next
  case (Cons a reg)
  from Cons.prems have r: "list_all (tool_fits logs) reg" and "tool_fits logs a"
    by simp_all
  then have a: "list_all (\<lambda>p. list_all fits (finditer p logs)) (snd a)"
    by (simp add: tool_fits_def)
  have tm: "list_ex (\<lambda>p. finditer p logs \<noteq> []) (snd a) \<longleftrightarrow> tool_matches logs a"
    by (simp add: tool_matches_def)
  show ?case
    by (simp add: pattern_loop_fits [OF a] Cons.IH [OF r] tool_errors_def tm)
qed

lemma tool_loop_not_fits:
  "\<not> list_all (tool_fits logs) reg \<Longrightarrow>
     \<exists>n > INT_MAX_STR_DIGITS. tool_loop reg logs st = Inl (digit_limit_error n)"
proof (induction reg arbitrary: st)
  case Nil
  then show ?case by simp
next
  case (Cons a reg)
  show ?case
  proof (cases "tool_fits logs a")
    case True
    with Cons.prems have "\<not> list_all (tool_fits logs) reg" by simp
    from Cons.IH [OF this] True show ?thesis
      by (simp add: tool_fits_def pattern_loop_fits)
  next
    case False
    then have "\<not> list_all (\<lambda>p. list_all fits (finditer p logs)) (snd a)"
      by (simp add: tool_fits_def)
    from pattern_loop_not_fits [OF this, of "fst a" st] show ?thesis by auto
  qed
qed

lemma concat_tool_errors_Nil:
  "concat (map (tool_errors logs) reg) = [] \<longleftrightarrow> filter (tool_matches logs) reg = []"
  by (induction reg) (simp_all add: tool_errors_Nil)

lemma parse_with_fits:
  assumes "list_all (tool_fits logs) reg"
  shows "parse_with reg logs =
     Inr \<lparr>errors = (if filter (tool_matches logs) reg = [] then extract_generic_errors logs
                     else concat (map (tool_errors logs) reg)),
          raw_logs = logs,
          overall_type = (if filter (tool_matches logs) reg = [] then ''unknown''
                          else fst (last (filter (tool_matches logs) reg)))\<rparr>"
  using concat_tool_errors_Nil [of logs reg]
  by (simp add: parse_with_def tool_loop_fits [OF assms] Let_def)

lemma parse_with_not_fits:
  assumes "\<not> list_all (tool_fits logs) reg"
  shows "\<exists>n > INT_MAX_STR_DIGITS. parse_with reg logs = Inl (digit_limit_error n)"
  using tool_loop_not_fits [OF assms, of "([], ''unknown'')"]
  by (auto simp: parse_with_def)

lemma parse_with_returns_iff:
  "(\<exists>r. parse_with reg logs = Inr r) \<longleftrightarrow> list_all (tool_fits logs) reg"
proof (cases "list_all (tool_fits logs) reg")
  case True
  then show ?thesis using parse_with_fits [of logs reg] by simp
next
  case False
  then show ?thesis using parse_with_not_fits [of logs reg] by auto
qed

lemma no_tool_iff: "\<not> list_ex (tool_matches logs) reg \<longleftrightarrow> filter (tool_matches logs) reg = []"
  by (simp add: filter_empty_conv list_ex_iff)

lemma no_tool_fits:
  assumes "\<not> list_ex (tool_matches logs) reg"
  shows "list_all (tool_fits logs) reg"
proof -
  have "\<forall>e \<in> set reg. \<forall>p \<in> set (snd e). finditer p logs = []"
    using assms by (auto simp: list_ex_iff tool_matches_def)
  then show ?thesis by (simp add: list_all_iff tool_fits_def)
qed

lemma last_filter_drop:
  assumes "j < length xs" and "P (xs ! j)"
    and "list_all (\<lambda>x. \<not> P x) (drop (Suc j) xs)"
  shows "filter P xs \<noteq> [] \<and> last (filter P xs) = xs ! j"
proof -
  have xs: "xs = take j xs @ xs ! j # drop (Suc j) xs"
    using assms(1) by (rule id_take_nth_drop)
  have "filter P (drop (Suc j) xs) = []"
    using assms(3) by (simp add: filter_empty_conv list_all_iff)
  then have "filter P xs = filter P (take j xs) @ [xs ! j]"
    using assms(2) by (subst xs) simp
  then show ?thesis by simp
qed

lemma extract_generic_errors_eq: "extract_generic_errors logs =
     take 10 (concat (map (\<lambda>p. map generic_error (finditer p logs)) error_indicators))"
proof -
  have inner: "\<And>errs ms. foldl (\<lambda>errs mo. errs @ [generic_error mo]) errs ms = errs @ map generic_error ms"
    by (induct_tac ms rule: rev_induct) simp_all
  have outer: "\<And>errs ps. foldl (\<lambda>errs p. errs @ map generic_error (finditer p logs)) errs ps
      = errs @ concat (map (\<lambda>p. map generic_error (finditer p logs)) ps)"
    by (induct_tac ps rule: rev_induct) simp_all
  show ?thesis by (simp add: extract_generic_errors_def inner outer)
qed

lemma PATTERNS_names: "\<forall>e \<in> set PATTERNS. fst e \<noteq> ''unknown''"
  by (simp add: PATTERNS_def)


lemma scan_start_ge:
  "mo \<in> set (scan r b s pos skip) \<Longrightarrow> pos \<le> m_start mo"
proof (induction s arbitrary: b pos skip)
  case Nil
  then have "match_at r b [] pos = Some mo"
    by (cases "skip = 0"; cases "match_at r b [] pos"; simp)
  then show ?case by (cases "rmatch r (b, [], []) Some") (auto simp: match_at_def)
next
  case (Cons c cs)
  show ?case
  proof (cases "skip = 0")
    case False
    with Cons.prems have "mo \<in> set (scan r (c = newline) cs (Suc pos) (skip - 1))" by simp
    from Cons.IH [OF this] show ?thesis by simp
  next
    case True
    show ?thesis
    proof (cases "match_at r b (c # cs) pos")
      case None
      with True Cons.prems have "mo \<in> set (scan r (c = newline) cs (Suc pos) 0)" by simp
      from Cons.IH [OF this] show ?thesis by simp
    next
      case (Some m)
      with True Cons.prems consider "mo = m"
        | "mo \<in> set (scan r (c = newline) cs (Suc pos) (m_end m - pos - 1))" by auto
      then show ?thesis
      proof cases
        case 1
        with Some show ?thesis by (auto simp: match_at_def split: option.splits)
      next
        case 2
        from Cons.IH [OF this] show ?thesis by simp
      qed
    qed
  qed
qed

lemma scan_sorted: "sorted_wrt (<) (map m_start (scan r b s pos skip))"
proof (induction s arbitrary: b pos skip)
  case Nil
  show ?case by (simp split: option.splits)
next
  case (Cons c cs)
  have start: "\<And>m. match_at r b (c # cs) pos = Some m \<Longrightarrow> m_start m = pos"
    by (auto simp: match_at_def split: option.splits)
  have later: "\<And>k mo. mo \<in> set (scan r (c = newline) cs (Suc pos) k) \<Longrightarrow> pos < m_start mo"
    using scan_start_ge by fastforce
  show ?case
    using Cons.IH start later by (auto split: option.splits)
qed

lemma finditer_sorted: "sorted_wrt (<) (map m_start (finditer p logs))"
  by (simp add: finditer_def scan_sorted)

lemma last_filter_name:
  assumes "filter P PATTERNS \<noteq> []"
  shows "fst (last (filter P PATTERNS)) \<noteq> ''unknown''"
proof -
  have "last (filter P PATTERNS) \<in> set (filter P PATTERNS)"
    using assms by (rule last_in_set)
  then have "last (filter P PATTERNS) \<in> set PATTERNS" by simp
  then show ?thesis using PATTERNS_names by blast
qed


lemma parse_error_logs_type:
  assumes "parse_error_logs logs = Inr r"
  shows "overall_type r =
     (if filter (tool_matches logs) PATTERNS = [] then ''unknown''
      else fst (last (filter (tool_matches logs) PATTERNS)))"
    and "errors r =
     (if filter (tool_matches logs) PATTERNS = [] then extract_generic_errors logs
      else concat (map (tool_errors logs) PATTERNS))"
proof -
  have "list_all (tool_fits logs) PATTERNS"
    using assms parse_with_returns_iff [of PATTERNS logs] by (auto simp: parse_error_logs_def)
  from parse_with_fits [OF this] assms
  show "overall_type r =
     (if filter (tool_matches logs) PATTERNS = [] then ''unknown''
      else fst (last (filter (tool_matches logs) PATTERNS)))"
    and "errors r =
     (if filter (tool_matches logs) PATTERNS = [] then extract_generic_errors logs
      else concat (map (tool_errors logs) PATTERNS))"
    by (auto simp: parse_error_logs_def)
qed

lemma parse_error_logs_no_tool:
  assumes "\<not> list_ex (tool_matches logs) PATTERNS"
  shows "parse_error_logs logs =
     Inr \<lparr>errors = extract_generic_errors logs, raw_logs = logs, overall_type = ''unknown''\<rparr>"
  using parse_with_fits [OF no_tool_fits [OF assms]] assms
  by (simp add: parse_error_logs_def no_tool_iff)

text \<open>
  Claim C5. Whenever \<open>parse_error_logs\<close> returns a result, its overall error type is the
  name of the last registry entry, in registry order, one of whose patterns has a
  match; so when two distinct tools match (and no later entry does) it is the later
  entry's name, wherever in the text the matches are. The function returns a result
  exactly when every line and column capture of a tool match has at most 4300 digits;
  otherwise it raises the ValueError of \<open>int\<close>.
\<close>

theorem last_match_wins:
  "(parse_error_logs logs = Inr r \<longrightarrow>
      overall_type r =
        (if filter (tool_matches logs) PATTERNS = [] then ''unknown''
         else fst (last (filter (tool_matches logs) PATTERNS))))
   \<and> (parse_error_logs logs = Inr r \<and> i < j \<and> j < length PATTERNS \<and>
       tool_matches logs (PATTERNS ! i) \<and> tool_matches logs (PATTERNS ! j) \<and>
       list_all (\<lambda>e. \<not> tool_matches logs e) (drop (Suc j) PATTERNS)
      \<longrightarrow> overall_type r = fst (PATTERNS ! j))
   \<and> ((\<exists>r'. parse_error_logs logs = Inr r') \<longleftrightarrow> list_all (tool_fits logs) PATTERNS)
   \<and> (\<not> list_all (tool_fits logs) PATTERNS \<longrightarrow>
        (\<exists>n > INT_MAX_STR_DIGITS. parse_error_logs logs = Inl (digit_limit_error n)))"
proof (intro conjI impI)
  show "overall_type r =
        (if filter (tool_matches logs) PATTERNS = [] then ''unknown''
         else fst (last (filter (tool_matches logs) PATTERNS)))"
    if "parse_error_logs logs = Inr r"
    using that by (rule parse_error_logs_type(1))
  show "overall_type r = fst (PATTERNS ! j)"
    if a: "parse_error_logs logs = Inr r \<and> i < j \<and> j < length PATTERNS \<and>
       tool_matches logs (PATTERNS ! i) \<and> tool_matches logs (PATTERNS ! j) \<and>
       list_all (\<lambda>e. \<not> tool_matches logs e) (drop (Suc j) PATTERNS)"
  proof -
    from a have "filter (tool_matches logs) PATTERNS \<noteq> [] \<and>
        last (filter (tool_matches logs) PATTERNS) = PATTERNS ! j"
      using last_filter_drop [of j PATTERNS "tool_matches logs"] by blast
    then show ?thesis using a parse_error_logs_type(1) [of logs r] by simp
  qed
  show "(\<exists>r'. parse_error_logs logs = Inr r') \<longleftrightarrow> list_all (tool_fits logs) PATTERNS"
    unfolding parse_error_logs_def by (rule parse_with_returns_iff)
  show "\<exists>n > INT_MAX_STR_DIGITS. parse_error_logs logs = Inl (digit_limit_error n)"
    if "\<not> list_all (tool_fits logs) PATTERNS"
    using that unfolding parse_error_logs_def by (rule parse_with_not_fits)
qed

theorem last_match_wins_witness:
  "(\<exists>r. parse_error_logs ''a.py:1: error: x\<newline>b.py:1:2 - error: y'' = Inr r \<and>
        overall_type r = ''mypy'')
   \<and> (\<exists>r. parse_error_logs ''b.py:1:2 - error: y\<newline>a.py:1: error: x'' = Inr r \<and>
        overall_type r = ''mypy'')"
proof -
  let ?A = "''a.py:1: error: x\<newline>b.py:1:2 - error: y''"
  let ?B = "''b.py:1:2 - error: y\<newline>a.py:1: error: x''"
  have n: "fst (PATTERNS ! 1) = ''mypy''" "(0::nat) < 1" "1 < length PATTERNS"
    by (simp_all add: PATTERNS_def)
  have a: "tool_matches ?A (PATTERNS ! 0)" "tool_matches ?A (PATTERNS ! 1)"
     "list_all (\<lambda>e. \<not> tool_matches ?A e) (drop (Suc 1) PATTERNS)"
     "list_all (tool_fits ?A) PATTERNS"
    by code_simp+
  have b: "tool_matches ?B (PATTERNS ! 0)" "tool_matches ?B (PATTERNS ! 1)"
     "list_all (\<lambda>e. \<not> tool_matches ?B e) (drop (Suc 1) PATTERNS)"
     "list_all (tool_fits ?B) PATTERNS"
    by code_simp+
  from last_match_wins [of ?A, THEN conjunct2, THEN conjunct2, THEN conjunct1] a(4)
  obtain ra where ra: "parse_error_logs ?A = Inr ra" by blast
  from last_match_wins [of ?B, THEN conjunct2, THEN conjunct2, THEN conjunct1] b(4)
  obtain rb where rb: "parse_error_logs ?B = Inr rb" by blast
  have "overall_type ra = ''mypy''"
    using last_match_wins [of ?A ra 0 1, THEN conjunct2, THEN conjunct1] ra n a by simp
  moreover have "overall_type rb = ''mypy''"
    using last_match_wins [of ?B rb 0 1, THEN conjunct2, THEN conjunct1] rb n b by simp
  ultimately show ?thesis using ra rb by blast
qed

text \<open>
  Claim C1, as amended. Whenever \<open>parse_error_logs\<close> returns a result, its overall error
  type is \<open>unknown\<close> exactly when no tool-specific pattern has a match. An empty error
  list therefore implies \<open>unknown\<close>; the converse fails, because the errors of the
  generic fallback pass leave the overall type at \<open>unknown\<close>. The function returns a
  result exactly when every line and column capture of a tool match has at most 4300
  digits, in particular whenever no tool-specific pattern matches.
\<close>

theorem unknown_iff_no_tool_match:
  "(parse_error_logs logs = Inr r \<longrightarrow>
      (overall_type r = ''unknown'' \<longleftrightarrow> \<not> list_ex (tool_matches logs) PATTERNS) \<and>
      (errors r = [] \<longrightarrow> overall_type r = ''unknown''))
   \<and> (\<not> list_ex (tool_matches logs) PATTERNS \<longrightarrow>
        parse_error_logs logs =
          Inr \<lparr>errors = extract_generic_errors logs, raw_logs = logs,
               overall_type = ''unknown''\<rparr>)
   \<and> ((\<exists>r'. parse_error_logs logs = Inr r') \<longleftrightarrow> list_all (tool_fits logs) PATTERNS)"
proof (intro conjI impI)
  show "parse_error_logs logs =
          Inr \<lparr>errors = extract_generic_errors logs, raw_logs = logs,
               overall_type = ''unknown''\<rparr>"
    if "\<not> list_ex (tool_matches logs) PATTERNS"
    using that by (rule parse_error_logs_no_tool)
  show "(\<exists>r'. parse_error_logs logs = Inr r') \<longleftrightarrow> list_all (tool_fits logs) PATTERNS"
    unfolding parse_error_logs_def by (rule parse_with_returns_iff)
  assume r: "parse_error_logs logs = Inr r"
  show iff: "overall_type r = ''unknown'' \<longleftrightarrow> \<not> list_ex (tool_matches logs) PATTERNS"
    using last_filter_name [of "tool_matches logs"] parse_error_logs_type(1) [OF r]
    by (simp add: no_tool_iff)
  show "overall_type r = ''unknown''" if e: "errors r = []"
  proof (rule ccontr)
    assume "overall_type r \<noteq> ''unknown''"
    then have ne: "filter (tool_matches logs) PATTERNS \<noteq> []"
      using iff by (simp add: no_tool_iff)
    then have "concat (map (tool_errors logs) PATTERNS) \<noteq> []"
      by (simp only: concat_tool_errors_Nil not_False_eq_True)
    then show False
      using e ne parse_error_logs_type(2) [OF r] by simp
  qed
qed

theorem unknown_iff_no_tool_match_witness:
  "parse_error_logs ''Error: x'' =
     Inr \<lparr>errors = extract_generic_errors ''Error: x'', raw_logs = ''Error: x'',
          overall_type = ''unknown''\<rparr>
   \<and> (\<exists>r. parse_error_logs ''a.py:1: error: x'' = Inr r \<and> overall_type r \<noteq> ''unknown'')"
proof -
  have g: "\<not> list_ex (tool_matches ''Error: x'') PATTERNS" by code_simp
  have t: "list_ex (tool_matches ''a.py:1: error: x'') PATTERNS"
    and f: "list_all (tool_fits ''a.py:1: error: x'') PATTERNS" by code_simp+
  from unknown_iff_no_tool_match [of "''a.py:1: error: x''", THEN conjunct2, THEN conjunct2] f
  obtain r where r: "parse_error_logs ''a.py:1: error: x'' = Inr r" by blast
  have "overall_type r \<noteq> ''unknown''"
    using unknown_iff_no_tool_match [of "''a.py:1: error: x''" r, THEN conjunct1] r t by simp
  with r have "\<exists>r. parse_error_logs ''a.py:1: error: x'' = Inr r \<and> overall_type r \<noteq> ''unknown''"
    by blast
  then show ?thesis
    using unknown_iff_no_tool_match [of "''Error: x''", THEN conjunct2, THEN conjunct1] g
    by simp
qed

text \<open>The invariant as the specification states it fails on a log with one generic
  indicator line: the result has one error and the overall type \<open>unknown\<close>.\<close>

theorem unknown_iff_empty_counterexample:
  "(case parse_error_logs ''Error: x'' of
      Inl e \<Rightarrow> False
    | Inr r \<Rightarrow> \<not> (overall_type r = ''unknown'' \<longleftrightarrow> errors r = []))"
  by code_simp

text \<open>
  Claim C4, as amended. The fallback pass returns the first ten entries of the list
  built pattern by pattern, in the order of the indicator list, each pattern's matches
  in text order. Its length is the smaller of ten and the total number of matches, so a
  log without tool matches and with at least ten generic matches (fifteen indicator
  lines, say) yields exactly ten generic errors.
\<close>

theorem generic_fallback_first_ten:
  "extract_generic_errors logs =
     take 10 (concat (map (\<lambda>p. map generic_error (finditer p logs)) error_indicators))
   \<and> (\<forall>p. sorted_wrt (<) (map m_start (finditer p logs)))
   \<and> length (extract_generic_errors logs) =
       min 10 (sum_list (map (\<lambda>p. length (finditer p logs)) error_indicators))
   \<and> (\<not> list_ex (tool_matches logs) PATTERNS \<longrightarrow>
        (\<exists>r. parse_error_logs logs = Inr r \<and> errors r = extract_generic_errors logs))
   \<and> (\<not> list_ex (tool_matches logs) PATTERNS \<and>
       10 \<le> sum_list (map (\<lambda>p. length (finditer p logs)) error_indicators) \<longrightarrow>
        (\<exists>r. parse_error_logs logs = Inr r \<and> length (errors r) = 10 \<and>
             list_all (\<lambda>e. error_type e = ''generic'') (errors r)))"
proof -
  have len: "length (extract_generic_errors logs) =
       min 10 (sum_list (map (\<lambda>p. length (finditer p logs)) error_indicators))"
    by (simp add: extract_generic_errors_eq length_concat comp_def min.commute)
  have fb: "\<exists>r. parse_error_logs logs = Inr r \<and> errors r = extract_generic_errors logs"
    if "\<not> list_ex (tool_matches logs) PATTERNS"
    using parse_error_logs_no_tool [OF that] by simp
  have gen: "list_all (\<lambda>e. error_type e = ''generic'') (extract_generic_errors logs)"
    unfolding extract_generic_errors_eq list_all_iff
    by (auto dest!: in_set_takeD simp: generic_error_def)
  have ten: "\<exists>r. parse_error_logs logs = Inr r \<and> length (errors r) = 10 \<and>
             list_all (\<lambda>e. error_type e = ''generic'') (errors r)"
    if "\<not> list_ex (tool_matches logs) PATTERNS"
      and "10 \<le> sum_list (map (\<lambda>p. length (finditer p logs)) error_indicators)"
    using parse_error_logs_no_tool [OF that(1)] that(2) len gen by simp
  show ?thesis
    using len fb ten by (simp add: finditer_sorted extract_generic_errors_eq [symmetric])
qed

theorem generic_fallback_first_ten_witness:
  "\<exists>r. parse_error_logs fifteen_lines = Inr r \<and> length (errors r) = 10
       \<and> list_all (\<lambda>e. error_type e = ''generic'') (errors r)"
proof -
  have a: "\<not> list_ex (tool_matches fifteen_lines) PATTERNS"
    by code_simp
  have b: "(10::nat) \<le> sum_list (map (\<lambda>p. length (finditer p fifteen_lines)) error_indicators)"
    by code_simp
  show ?thesis
    using generic_fallback_first_ten [of fifteen_lines] a b by blast
qed

text \<open>With a \<open>fatal:\<close> line before an \<open>Error:\<close> line the result is not in text order.\<close>

theorem generic_fallback_text_order_counterexample:
  "extract_generic_errors ''fatal: a\<newline>Error: b'' \<noteq>
     spec_generic_in_text_order ''fatal: a\<newline>Error: b''
   \<and> map message (extract_generic_errors ''fatal: a\<newline>Error: b'') = [''b'', ''a'']
   \<and> map message (spec_generic_in_text_order ''fatal: a\<newline>Error: b'') = [''a'', ''b'']"
  by code_simp

subsection \<open>Decoding the reply\<close>

lemma py_get_field:
  "py_get cd key (JStr []) = Inr v \<Longrightarrow> field cd key = v"
  by (cases cd) (auto split: option.splits)

lemma source_get_original:
  "source_get sf fp = Inr c \<Longrightarrow> original_of sf fp = c"
  by (cases fp) (auto simp: original_of_def split: option.splits)

lemma build_changes_returns:
  "build_changes sf items acc = Inr chs \<Longrightarrow>
     chs = acc @ map (change_of sf) (filter kept items)"
proof (induction items arbitrary: acc)
  case Nil
  then show ?case by simp
next
  case (Cons cd items)
  from Cons.prems obtain fp nc where
    fp: "py_get cd ''file_path'' (JStr []) = Inr fp" and
    nc: "py_get cd ''new_content'' (JStr []) = Inr nc"
    by (auto split: sum.splits)
  have k: "kept cd \<longleftrightarrow> truthy fp \<and> truthy nc"
    using fp nc by (simp add: kept_def py_get_field)
  show ?case
  proof (cases "truthy fp \<and> truthy nc")
    case False
    with Cons.prems fp nc have "build_changes sf items acc = Inr chs" by auto
    from Cons.IH [OF this] show ?thesis using False k by simp
  next
    case True
    with Cons.prems fp nc obtain orig where
      o: "source_get sf fp = Inr orig" and
      r: "build_changes sf items
            (acc @ [\<lparr>file_path = fp, original_content = orig, new_content = nc\<rparr>]) = Inr chs"
      by (auto split: sum.splits)
    have "change_of sf cd = \<lparr>file_path = fp, original_content = orig, new_content = nc\<rparr>"
      using fp nc o by (simp add: change_of_def py_get_field source_get_original)
    with Cons.IH [OF r] show ?thesis using True k by simp
  qed
qed

lemma well_formed_change_get:
  assumes "well_formed_change cd"
  shows "\<exists>fp nc. py_get cd ''file_path'' (JStr []) = Inr fp \<and>
           py_get cd ''new_content'' (JStr []) = Inr nc \<and> (\<exists>c. source_get sf fp = Inr c)"
proof -
  from assms obtain kvs where cd: "cd = JObj kvs"
    by (cases cd) (auto simp: well_formed_change_def)
  from assms cd obtain p where "py_get cd ''file_path'' (JStr []) = Inr (JStr p)"
    by (auto simp: well_formed_change_def split: option.splits json.splits)
  then show ?thesis using cd by simp
qed

lemma build_changes_well_formed:
  "list_all well_formed_change items \<Longrightarrow> \<exists>chs. build_changes sf items acc = Inr chs"
proof (induction items arbitrary: acc)
  case Nil
  then show ?case by simp
next
  case (Cons cd items)
  then have wf: "well_formed_change cd" and rest: "list_all well_formed_change items"
    by simp_all
  from well_formed_change_get [OF wf, of sf] obtain fp nc c where
    "py_get cd ''file_path'' (JStr []) = Inr fp"
    "py_get cd ''new_content'' (JStr []) = Inr nc" "source_get sf fp = Inr c"
    by blast
  then show ?case using Cons.IH [OF rest] by simp
qed

lemma fix_result_of_data_returns:
  assumes "fix_result_of_data data sf = Inr r"
  shows "changes r = map (change_of sf) (filter kept (proposed data))"
    and "\<exists>kvs. data = JObj kvs \<and>
           can_fix r = (case map_of kvs ''can_fix'' of None \<Rightarrow> JBool False | Some v \<Rightarrow> v)"
proof -
  from assms obtain kvs where d: "data = JObj kvs"
    by (cases data) (auto simp: fix_result_of_data_def)
  define cs where "cs = (case map_of kvs ''changes'' of None \<Rightarrow> JArr [] | Some v \<Rightarrow> v)"
  from assms d obtain items chs where
    it: "py_iter cs = Inr items" and bc: "build_changes sf items [] = Inr chs"
    by (auto simp: fix_result_of_data_def cs_def split: sum.splits)
  have r: "r = \<lparr>can_fix = (case map_of kvs ''can_fix'' of None \<Rightarrow> JBool False | Some v \<Rightarrow> v),
      description = (case map_of kvs ''description'' of None \<Rightarrow> JStr [] | Some v \<Rightarrow> v),
      changes = chs,
      confidence = (case map_of kvs ''confidence'' of None \<Rightarrow> JFloat (Finite 0) | Some v \<Rightarrow> v),
      analysis = (case map_of kvs ''analysis'' of None \<Rightarrow> JStr [] | Some v \<Rightarrow> v)\<rparr>"
    using assms d it bc by (simp add: fix_result_of_data_def cs_def)
  have "proposed data = items"
    using d it by (auto simp: proposed_def cs_def split: option.splits)
  then show "changes r = map (change_of sf) (filter kept (proposed data))"
    using build_changes_returns [OF bc] r by simp
  show "\<exists>kvs. data = JObj kvs \<and>
           can_fix r = (case map_of kvs ''can_fix'' of None \<Rightarrow> JBool False | Some v \<Rightarrow> v)"
    using d r by simp
qed

lemma fix_result_of_data_well_formed:
  assumes "well_formed_reply data"
  shows "\<exists>r. fix_result_of_data data sf = Inr r"
proof -
  from assms obtain kvs where d: "data = JObj kvs"
    by (cases data) (auto simp: well_formed_reply_def)
  define cs where "cs = (case map_of kvs ''changes'' of None \<Rightarrow> JArr [] | Some v \<Rightarrow> v)"
  from assms d obtain items where it: "cs = JArr items" and wf: "list_all well_formed_change items"
    by (auto simp: well_formed_reply_def cs_def split: option.splits json.splits)
  from build_changes_well_formed [OF wf, of sf "[]"] obtain chs where
    "build_changes sf items [] = Inr chs" by blast
  then show ?thesis
    using d it by (simp add: fix_result_of_data_def cs_def [symmetric])
qed


text \<open>
  Claim C7. Whenever a FixResult is built from a decoded reply, its changes are exactly
  the proposed entries that are kept (non-empty path and non-empty new content), in
  order, each with the original content found for its path in the resolved source map,
  or the empty string; and a FixResult is built for every reply of the requested format.
  A reply with one change whose new content is empty and one fully populated change
  yields exactly one FileChange.
\<close>

theorem changes_filtered:
  "(fix_result_of_data data sf = Inr r \<longrightarrow>
      changes r = map (change_of sf) (filter kept (proposed data)))
   \<and> (well_formed_reply data \<longrightarrow> (\<exists>r'. fix_result_of_data data sf = Inr r'))
   \<and> (kept (JObj [(''file_path'', JStr path), (''new_content'', JStr content)]) \<longleftrightarrow>
        path \<noteq> [] \<and> content \<noteq> [])
   \<and> change_of sf (JObj [(''file_path'', JStr path), (''new_content'', JStr content)]) =
        \<lparr>file_path = JStr path,
         original_content = (case sf path of None \<Rightarrow> [] | Some c \<Rightarrow> c),
         new_content = JStr content\<rparr>"
  using fix_result_of_data_returns(1) [of data sf r] fix_result_of_data_well_formed [of data sf]
  by (simp add: kept_def change_of_def original_of_def)

theorem changes_filtered_witness:
  "\<exists>r. fix_result_of_data reply_two_changes [''b.py'' \<mapsto> ''x = 0''] = Inr r \<and>
       changes r = [\<lparr>file_path = JStr ''b.py'', original_content = ''x = 0'',
                     new_content = JStr ''x = 1''\<rparr>]"
proof -
  let ?sf = "[''b.py'' \<mapsto> ''x = 0'']"
  have wf: "well_formed_reply reply_two_changes"
    by (simp add: reply_two_changes_def well_formed_reply_def well_formed_change_def)
  have p: "map (change_of ?sf) (filter kept (proposed reply_two_changes)) =
      [\<lparr>file_path = JStr ''b.py'', original_content = ''x = 0'', new_content = JStr ''x = 1''\<rparr>]"
    by (simp add: reply_two_changes_def proposed_def kept_def change_of_def original_of_def)
  from changes_filtered [of reply_two_changes ?sf, THEN conjunct2, THEN conjunct1] wf
  obtain r where r: "fix_result_of_data reply_two_changes ?sf = Inr r" by blast
  with changes_filtered [of reply_two_changes ?sf r, THEN conjunct1] p
  have "changes r = [\<lparr>file_path = JStr ''b.py'', original_content = ''x = 0'',
                     new_content = JStr ''x = 1''\<rparr>]" by simp
  with r show ?thesis by blast
qed




lemma parse_claude_response_no_match:
  "extract_json_match reply = None \<or> extract_json_match reply = Some [] \<Longrightarrow>
     parse_claude_response jl reply sf = Inr (failed_result ''Failed to parse Claude response'')"
  by (auto simp: parse_claude_response_def)

lemma parse_claude_response_decode_error:
  "extract_json_match reply = Some j \<Longrightarrow> j \<noteq> [] \<Longrightarrow> jl j = JSONDecodeError e \<Longrightarrow>
     parse_claude_response jl reply sf = Inr (failed_result (''JSON parse error: '' @ e))"
  by (simp add: parse_claude_response_def)

lemma parse_claude_response_loads_raises:
  "extract_json_match reply = Some j \<Longrightarrow> j \<noteq> [] \<Longrightarrow> jl j = LoadsRaises x \<Longrightarrow>
     parse_claude_response jl reply sf = Inl x"
  by (simp add: parse_claude_response_def)

lemma parse_claude_response_decoded:
  "extract_json_match reply = Some j \<Longrightarrow> j \<noteq> [] \<Longrightarrow> jl j = Loaded data \<Longrightarrow>
     parse_claude_response jl reply sf = fix_result_of_data data sf"
  by (simp add: parse_claude_response_def)

lemma contains_find: "contains s sub \<Longrightarrow> \<exists>i. find s sub 0 = Some i"
  by (auto simp: contains_def)

lemma extract_selected:
  "extract_json_match reply =
     (if contains reply ''```json'' then spec_fenced ''```json'' reply
      else if contains reply ''```'' then spec_fenced ''```'' reply
      else spec_braces reply)"
proof -
  have l7: "length ''```json'' = 7" and l3: "length ''```'' = 3" by simp_all
  show ?thesis
    unfolding extract_json_match_def spec_fenced_def spec_braces_def l7 l3 Let_def
    by (simp split: option.splits)
qed

text \<open>
  Claim C2, as amended. The extraction strategy is selected by the markers present in
  the reply: the block tagged \<open>```json\<close> when the reply contains that tag, otherwise the
  first fenced block when the reply contains a fence, otherwise the substring from the
  first \<open>{\<close> to the last \<open>}\<close>. Only the selected strategy is tried. When it yields
  nothing, or an empty text, or a text the decoder rejects with a JSONDecodeError, the
  result is a FixResult with \<open>can_fix\<close> False and an analysis noting the parse failure,
  and nothing is raised. Any other exception of the decoder reaches the caller.
\<close>

theorem extraction_selected_by_marker:
  "extract_json_match reply =
     (if contains reply ''```json'' then spec_fenced ''```json'' reply
      else if contains reply ''```'' then spec_fenced ''```'' reply
      else spec_braces reply)
   \<and> (extract_json_match reply = None \<or> extract_json_match reply = Some [] \<longrightarrow>
        parse_claude_response jl reply sf = Inr (failed_result ''Failed to parse Claude response''))
   \<and> (extract_json_match reply = Some j \<and> j \<noteq> [] \<and> jl j = JSONDecodeError e \<longrightarrow>
        parse_claude_response jl reply sf = Inr (failed_result (''JSON parse error: '' @ e)))
   \<and> (extract_json_match reply = Some j \<and> j \<noteq> [] \<and> jl j = LoadsRaises x \<longrightarrow>
        parse_claude_response jl reply sf = Inl x)
   \<and> (extract_json_match reply = Some j \<and> j \<noteq> [] \<and> jl j = Loaded data \<longrightarrow>
        parse_claude_response jl reply sf = fix_result_of_data data sf)
   \<and> can_fix (failed_result msg) = JBool False
   \<and> analysis (failed_result msg) = JStr msg"
  using extract_selected [of reply] parse_claude_response_no_match [of reply jl sf]
    parse_claude_response_decode_error [of reply j jl e sf]
    parse_claude_response_loads_raises [of reply j jl x sf]
    parse_claude_response_decoded [of reply j jl data sf]
  by (simp add: failed_result_def)

theorem extraction_selected_by_marker_witness:
  "parse_claude_response (\<lambda>s. JSONDecodeError ''Expecting value'') ''no json at all'' Map.empty =
     Inr (failed_result ''Failed to parse Claude response'')
   \<and> parse_claude_response (\<lambda>s. JSONDecodeError ''Expecting value'') ''``` oops ```'' Map.empty =
     Inr (failed_result ''JSON parse error: Expecting value'')
   \<and> parse_claude_response (\<lambda>s. LoadsRaises RecursionError) ''``` [[[[ ```'' Map.empty =
     Inl RecursionError"
proof -
  have a: "extract_json_match ''no json at all'' = None" by code_simp
  have b: "extract_json_match ''``` oops ```'' = Some ''oops''" by code_simp
  have c: "extract_json_match ''``` [[[[ ```'' = Some ''[[[[''" by code_simp
  show ?thesis
    using extraction_selected_by_marker
        [where reply = "''no json at all''" and jl = "\<lambda>s. JSONDecodeError ''Expecting value''"
           and sf = Map.empty] a
      extraction_selected_by_marker
        [where reply = "''``` oops ```''" and jl = "\<lambda>s. JSONDecodeError ''Expecting value''"
           and sf = Map.empty and j = "''oops''" and e = "''Expecting value''"] b
      extraction_selected_by_marker
        [where reply = "''``` [[[[ ```''" and jl = "\<lambda>s. LoadsRaises RecursionError"
           and sf = Map.empty and j = "''[[[[''" and x = RecursionError] c
    by simp
qed

text \<open>A reply with an unterminated \<open>```json\<close> block: the first two strategies yield
  nothing, the third would yield \<open>{}\<close>, and the source does not try it.\<close>

theorem extraction_fallthrough_counterexample:
  "spec_fenced ''```json'' ''```json {}'' = None
   \<and> spec_fenced ''```'' ''```json {}'' = None
   \<and> spec_braces ''```json {}'' = Some ''{}''
   \<and> spec_extract_in_order ''```json {}'' = Some ''{}''
   \<and> extract_json_match ''```json {}'' = None
   \<and> parse_claude_response (\<lambda>s. Loaded (JObj [])) ''```json {}'' Map.empty =
        Inr (failed_result ''Failed to parse Claude response'')"
  by code_simp

lemma catch_api_error_not_api:
  "catch_api_error r = Inl x \<Longrightarrow> (\<forall>m. x \<noteq> APIError m) \<and> r = Inl x"
  by (auto simp: catch_api_error_def split: sum.splits exn.splits)

text \<open>
  Claim C3, as amended. An \<open>anthropic.APIError\<close> raised by the invocation of the
  generation service is converted into a FixResult with \<open>can_fix\<close> False and the
  non-empty analysis \<open>API error: \<close> followed by the error detail, and no APIError ever
  reaches the caller. Any other exception raised by the invocation propagates.
\<close>

theorem api_error_converted:
  "analyze_failure jl (Raises (APIError m)) sf = Inr (failed_result (''API error: '' @ m))
   \<and> can_fix (failed_result (''API error: '' @ m)) = JBool False
   \<and> analysis (failed_result (''API error: '' @ m)) \<noteq> JStr []
   \<and> (analyze_failure jl outcome sf = Inl x \<longrightarrow> (\<forall>m'. x \<noteq> APIError m'))
   \<and> ((\<forall>m'. x \<noteq> APIError m') \<longrightarrow> analyze_failure jl (Raises x) sf = Inl x)"
proof (intro conjI impI)
  show "analyze_failure jl (Raises (APIError m)) sf = Inr (failed_result (''API error: '' @ m))"
    by (simp add: analyze_failure_def catch_api_error_def)
  show "can_fix (failed_result (''API error: '' @ m)) = JBool False"
    and "analysis (failed_result (''API error: '' @ m)) \<noteq> JStr []"
    by (simp_all add: failed_result_def)
  show "\<forall>m'. x \<noteq> APIError m'" if "analyze_failure jl outcome sf = Inl x"
    using that catch_api_error_not_api unfolding analyze_failure_def by blast
  show "analyze_failure jl (Raises x) sf = Inl x" if "\<forall>m'. x \<noteq> APIError m'"
    using that by (cases x) (simp_all add: analyze_failure_def catch_api_error_def)
qed

theorem api_error_converted_witness:
  "analyze_failure (\<lambda>s. JSONDecodeError ''bad'') (Raises (APIError ''overloaded'')) Map.empty =
     Inr (failed_result ''API error: overloaded'')
   \<and> analyze_failure (\<lambda>s. JSONDecodeError ''bad'') (Raises (OtherError ''timeout'')) Map.empty =
     Inl (OtherError ''timeout'')"
  using api_error_converted [of "\<lambda>s. JSONDecodeError ''bad''" "''overloaded''" Map.empty
      "Raises (OtherError ''timeout'')" "OtherError ''timeout''"]
  by simp

text \<open>A reply whose first content block has no \<open>text\<close> attribute: the ValueError the
  source raises for it is not caught and reaches the caller.\<close>

theorem unexpected_reply_counterexample:
  "analyze_failure (\<lambda>s. JSONDecodeError ''bad'') (Returns [OtherBlock]) Map.empty =
     Inl (ValueError ''Unexpected response format from Claude API'')"
  by (simp add: analyze_failure_def catch_api_error_def)

subsection \<open>The pipeline\<close>

lemma after_clone_declined:
  "analyse c parsed = Inr fr \<Longrightarrow> \<not> truthy (can_fix fr) \<Longrightarrow>
     after_clone c parsed = ([AnalyzeFailure], NOT_FIXABLE)"
  by (simp add: after_clone_def)

lemma after_clone_fix_action:
  assumes "list_ex fix_action (fst (after_clone c parsed))"
  shows "\<exists>fr. analyse c parsed = Inr fr \<and> truthy (can_fix fr)"
proof (cases "analyse c parsed")
  case (Inl e)
  with assms show ?thesis by (simp add: after_clone_def)
next
  case (Inr fr)
  with assms have "truthy (can_fix fr)"
    by (cases "truthy (can_fix fr)") (simp_all add: after_clone_def)
  with Inr show ?thesis by simp
qed

text \<open>
  Claim C8. When the oracle consultation of a work item returns a FixResult whose
  \<open>can_fix\<close> is false, the run makes exactly the calls failure notification, log fetch,
  clone, analysis and removal of the working copy, and ends in \<open>NOT_FIXABLE\<close>: the
  Applier is not invoked, no pull request is published and no fix-published
  notification is sent. Conversely, a run that makes any of these three calls is one
  whose analysis returned a FixResult with a true \<open>can_fix\<close>.
\<close>

theorem declined_fix_never_applied:
  "(notify_failure c = None \<and> fetch_logs c = Inr logs \<and>
    parse_error_logs logs = Inr parsed \<and> errors parsed \<noteq> [] \<and> clone c = None \<and>
    analyse c parsed = Inr fr \<and> \<not> truthy (can_fix fr) \<longrightarrow>
      process_workflow_failure c =
        ([SendFailureNotification, FetchWorkflowLogs, CloneRepository, AnalyzeFailure,
          RemoveWorkingCopy], NOT_FIXABLE))
   \<and> (list_ex fix_action (fst (process_workflow_failure c)) \<longrightarrow>
        (\<exists>logs' parsed' fr'. fetch_logs c = Inr logs' \<and>
           parse_error_logs logs' = Inr parsed' \<and>
           analyse c parsed' = Inr fr' \<and> truthy (can_fix fr')))"
proof (intro conjI impI)
  assume "notify_failure c = None \<and> fetch_logs c = Inr logs \<and>
    parse_error_logs logs = Inr parsed \<and> errors parsed \<noteq> [] \<and> clone c = None \<and>
    analyse c parsed = Inr fr \<and> \<not> truthy (can_fix fr)"
  then show "process_workflow_failure c =
        ([SendFailureNotification, FetchWorkflowLogs, CloneRepository, AnalyzeFailure,
          RemoveWorkingCopy], NOT_FIXABLE)"
    by (simp add: process_workflow_failure_def after_clone_declined)
next
  assume a: "list_ex fix_action (fst (process_workflow_failure c))"
  then obtain logs' where l: "fetch_logs c = Inr logs'"
    by (cases "fetch_logs c") (auto simp: process_workflow_failure_def split: option.splits)
  from a l obtain parsed' where p: "parse_error_logs logs' = Inr parsed'"
    by (cases "parse_error_logs logs'")
       (auto simp: process_workflow_failure_def split: option.splits)
  from a l p have "list_ex fix_action (fst (after_clone c parsed'))"
    by (auto simp: process_workflow_failure_def Let_def split: option.splits if_splits prod.splits)
  from after_clone_fix_action [OF this] l p
  show "\<exists>logs' parsed' fr'. fetch_logs c = Inr logs' \<and>
           parse_error_logs logs' = Inr parsed' \<and>
           analyse c parsed' = Inr fr' \<and> truthy (can_fix fr')"
    by blast
qed

theorem declined_fix_never_applied_witness:
  "process_workflow_failure declined_run =
     ([SendFailureNotification, FetchWorkflowLogs, CloneRepository, AnalyzeFailure,
       RemoveWorkingCopy], NOT_FIXABLE)
   \<and> \<not> list_ex fix_action (fst (process_workflow_failure declined_run))"
proof -
  have e: "\<not> list_ex (tool_matches ''Error: x'') PATTERNS"
    and g: "extract_generic_errors ''Error: x'' \<noteq> []" by code_simp+
  have p: "parse_error_logs ''Error: x'' =
     Inr \<lparr>errors = extract_generic_errors ''Error: x'', raw_logs = ''Error: x'',
          overall_type = ''unknown''\<rparr>"
    using e by (rule parse_error_logs_no_tool)
  have "process_workflow_failure declined_run =
     ([SendFailureNotification, FetchWorkflowLogs, CloneRepository, AnalyzeFailure,
       RemoveWorkingCopy], NOT_FIXABLE)"
    using declined_fix_never_applied
      [where c = declined_run and logs = "''Error: x''"
         and parsed = "\<lparr>errors = extract_generic_errors ''Error: x'', raw_logs = ''Error: x'',
                         overall_type = ''unknown''\<rparr>"
         and fr = "failed_result ''not fixable''", THEN conjunct1] p g
    by (simp add: declined_run_def failed_result_def)
  then show ?thesis by simp
qed

end
